theory Spec2Isabelle
  imports Main "HOL-Library.Sublist" "HOL-Library.AList"
begin

section \<open>Strings and the Python primitives the scripts rely on\<close>

text \<open>
  Python strings are modelled as \<^typ>\<open>string\<close>; a character stands for one ASCII code
  point.  File names and transcripts outside ASCII are beyond this model: the
  interpreter's tables of Unicode digits and Unicode white space are not reproduced.
\<close>

datatype error =
    IndexError
  | ValueError
  | AttributeError
  | TypeError
  | FileNotFoundError
  | CalledProcessError
  | TimeoutError
  | WaveError
  | RequestException
  | SystemExit string

text \<open>\<^verbatim>\<open>str.isspace\<close> on ASCII: TAB..CR, FS..US and the blank.\<close>

definition is_space :: "char \<Rightarrow> bool" where
  "is_space c = (let n = (of_char c :: nat) in (9 \<le> n \<and> n \<le> 13) \<or> (28 \<le> n \<and> n \<le> 32))"

text \<open>The white space \<^verbatim>\<open>int()\<close> skips around an ASCII literal: TAB..CR and the blank.\<close>

definition int_space :: "char \<Rightarrow> bool" where
  "int_space c = (let n = (of_char c :: nat) in (9 \<le> n \<and> n \<le> 13) \<or> n = 32)"

definition is_digit :: "char \<Rightarrow> bool" where
  "is_digit c = (let n = (of_char c :: nat) in 48 \<le> n \<and> n \<le> 57)"

definition digit_val :: "char \<Rightarrow> int" where
  "digit_val c = int (of_char c) - 48"

text \<open>Removal of the leading and trailing characters of a class; \<^verbatim>\<open>s.strip()\<close>.\<close>

definition strip_by :: "(char \<Rightarrow> bool) \<Rightarrow> string \<Rightarrow> string" where
  "strip_by P s = rev (dropWhile P (rev (dropWhile P s)))"

definition strip :: "string \<Rightarrow> string" where
  "strip s = strip_by is_space s"

text \<open>\<^verbatim>\<open>s.split(sep, 1)\<close> for a one-character separator.\<close>

definition split1 :: "char \<Rightarrow> string \<Rightarrow> string list" where
  "split1 sep s =
     (case dropWhile (\<lambda>c. c \<noteq> sep) s of
        [] \<Rightarrow> [s]
      | _ # rest \<Rightarrow> [takeWhile (\<lambda>c. c \<noteq> sep) s, rest])"

text \<open>\<^verbatim>\<open>xs[i]\<close> for a non-negative constant index.\<close>

definition index :: "'a list \<Rightarrow> nat \<Rightarrow> error + 'a" where
  "index xs i = (if i < length xs then Inr (xs ! i) else Inl IndexError)"

text \<open>
  The digit part of a base-10 literal: digits, with single underscores allowed between two
  digits only.
\<close>

fun digits_ok :: "string \<Rightarrow> bool" where
  "digits_ok [] = False"
| "digits_ok [c] = is_digit c"
| "digits_ok (c # d # cs) =
     (is_digit c \<and> (if d = CHR ''_'' then digits_ok cs else digits_ok (d # cs)))"

definition digits_value :: "string \<Rightarrow> int" where
  "digits_value ds = foldl (\<lambda>acc c. 10 * acc + digit_val c) 0 (filter (\<lambda>c. c \<noteq> CHR ''_'') ds)"

text \<open>
  \<^verbatim>\<open>int(s)\<close>: surrounding white space, an optional sign, then the digit part.  The
  interpreter's bound on the number of digits (4300 by default) is beyond the length of a
  file name and is left out.
\<close>

definition py_int :: "string \<Rightarrow> error + int" where
  "py_int s =
     (let t = strip_by int_space s in
      case t of
        [] \<Rightarrow> Inl ValueError
      | c # r \<Rightarrow>
          if c = CHR ''-'' then (if digits_ok r then Inr (- digits_value r) else Inl ValueError)
          else if c = CHR ''+'' then (if digits_ok r then Inr (digits_value r) else Inl ValueError)
          else (if digits_ok t then Inr (digits_value t) else Inl ValueError))"

text \<open>\<^verbatim>\<open>xs[:n]\<close>: a negative bound counts from the end.\<close>

definition py_take :: "int \<Rightarrow> 'a list \<Rightarrow> 'a list" where
  "py_take n xs = (if 0 \<le> n then take (nat n) xs else take (nat (int (length xs) + n)) xs)"

text \<open>\<^verbatim>\<open>sep.join(xs)\<close>\<close>

fun join :: "string \<Rightarrow> string list \<Rightarrow> string" where
  "join sep [] = []"
| "join sep [x] = x"
| "join sep (x # y # ys) = x @ sep @ join sep (y # ys)"

section \<open>Clip selection (the same code in all four scripts)\<close>

text \<open>
  \<^verbatim>\<open>Path.stem\<close>: the final component without its last suffix; a leading or a trailing
  dot is no suffix separator.
\<close>

definition stem :: "string \<Rightarrow> string" where
  "stem name =
     (if CHR ''.'' \<notin> set name then name
      else let i = length name - length (takeWhile (\<lambda>c. c \<noteq> CHR ''.'') (rev name)) - 1
           in if 0 < i \<and> i < length name - 1 then take i name else name)"

text \<open>
  \<^verbatim>\<open>parse_clip_id\<close>: \<open>parse_clip_id_raw\<close> is the body of the \<^verbatim>\<open>try\<close>; the handler
  turns \<^verbatim>\<open>IndexError\<close> and \<^verbatim>\<open>ValueError\<close> into \<^verbatim>\<open>None\<close>, and any other exception
  would leave the function.
\<close>

definition parse_clip_id_raw :: "string \<Rightarrow> error + int" where
  "parse_clip_id_raw path =
     (case index (split1 CHR ''_'' (stem path)) 1 of
        Inl e \<Rightarrow> Inl e
      | Inr tok \<Rightarrow> py_int tok)"

definition parse_clip_id :: "string \<Rightarrow> error + int option" where
  "parse_clip_id path =
     (case parse_clip_id_raw path of
        Inr n \<Rightarrow> Inr (Some n)
      | Inl IndexError \<Rightarrow> Inr None
      | Inl ValueError \<Rightarrow> Inr None
      | Inl e \<Rightarrow> Inl e)"

text \<open>
  The pattern \<^verbatim>\<open>MYR_*.mp4\<close> of \<^verbatim>\<open>VOICE_DIR.glob\<close>, on a directory entry's name; letters
  are compared with their case, as on a case-sensitive file system.
\<close>

definition glob_match :: "string \<Rightarrow> bool" where
  "glob_match name =
     (8 \<le> length name \<and> take 4 name = ''MYR_'' \<and> drop (length name - 4) name = ''.mp4'')"

text \<open>
  The loop of \<^verbatim>\<open>select_targets\<close> over the entries the glob yields, in the order the
  directory lists them; \<open>numbered\<close> is the list being appended to.
\<close>

fun select_loop ::
  "int \<Rightarrow> string list \<Rightarrow> (int \<times> string) list \<Rightarrow> error + (int \<times> string) list" where
  "select_loop start_id [] numbered = Inr numbered"
| "select_loop start_id (mp4 # rest) numbered =
     (case parse_clip_id mp4 of
        Inl e \<Rightarrow> Inl e
      | Inr None \<Rightarrow> select_loop start_id rest numbered
      | Inr (Some clip_id) \<Rightarrow>
          if clip_id < start_id then select_loop start_id rest numbered
          else select_loop start_id rest (numbered @ [(clip_id, mp4)]))"

text \<open>
  \<^verbatim>\<open>select_targets\<close>; the first argument is the listing of \<^verbatim>\<open>VOICE_DIR\<close> (entry names;
  the returned paths are these names inside \<^verbatim>\<open>VOICE_DIR\<close>).  The sort is Python's
  stable sort on the key, which \<^const>\<open>sort_key\<close> is as well.
\<close>

definition select_targets :: "string list \<Rightarrow> int \<Rightarrow> int \<Rightarrow> error + string list" where
  "select_targets listing start_id limit =
     (case select_loop start_id (filter glob_match listing) [] of
        Inl e \<Rightarrow> Inl e
      | Inr numbered \<Rightarrow> Inr (map snd (py_take limit (sort_key fst numbered))))"

section \<open>JSON values and \<^verbatim>\<open>json.dumps\<close>\<close>

text \<open>
  A decoded JSON document.  An object is the list of its items in insertion order, as a
  Python \<^verbatim>\<open>dict\<close> keeps them; a float is carried by its \<^verbatim>\<open>repr\<close>, which determines it.
\<close>

datatype json =
    JNull
  | JBool bool
  | JInt int
  | JFloat string
  | JStr string
  | JArr "json list"
  | JObj "(string \<times> json) list"

type_synonym dict = "(string \<times> json) list"

text \<open>Truth value of an object in a condition.\<close>

fun truthy :: "json \<Rightarrow> bool" where
  "truthy JNull = False"
| "truthy (JBool b) = b"
| "truthy (JInt i) = (i \<noteq> 0)"
| "truthy (JFloat r) = (r \<noteq> ''0.0'' \<and> r \<noteq> ''-0.0'')"
| "truthy (JStr s) = (s \<noteq> [])"
| "truthy (JArr xs) = (xs \<noteq> [])"
| "truthy (JObj kvs) = (kvs \<noteq> [])"

text \<open>\<^verbatim>\<open>d.get(k)\<close>, \<^verbatim>\<open>d.get(k, default)\<close>, \<^verbatim>\<open>k in d\<close>, \<^verbatim>\<open>d[k] = v\<close> and \<^verbatim>\<open>{**d, **e}\<close>.\<close>

definition dict_get :: "dict \<Rightarrow> string \<Rightarrow> json" where
  "dict_get d k = (case map_of d k of None \<Rightarrow> JNull | Some v \<Rightarrow> v)"

definition dict_get_default :: "dict \<Rightarrow> string \<Rightarrow> json \<Rightarrow> json" where
  "dict_get_default d k dflt = (case map_of d k of None \<Rightarrow> dflt | Some v \<Rightarrow> v)"

definition dict_has :: "dict \<Rightarrow> string \<Rightarrow> bool" where
  "dict_has d k = (k \<in> set (map fst d))"

definition dict_merge :: "dict \<Rightarrow> dict \<Rightarrow> dict" where
  "dict_merge d e = fold (\<lambda>(k, v). AList.update k v) e d"

definition digit_char :: "nat \<Rightarrow> char" where
  "digit_char d = char_of (48 + d)"

fun show_nat :: "nat \<Rightarrow> string" where
  "show_nat n = (if n < 10 then [digit_char n] else show_nat (n div 10) @ [digit_char (n mod 10)])"

declare show_nat.simps [simp del]

definition show_int :: "int \<Rightarrow> string" where
  "show_int i = (if i < 0 then CHR ''-'' # show_nat (nat (- i)) else show_nat (nat i))"

definition hex_char :: "nat \<Rightarrow> char" where
  "hex_char d = (if d < 10 then char_of (48 + d) else char_of (87 + d))"

text \<open>String escaping with \<^verbatim>\<open>ensure_ascii=False\<close>: the quote, the backslash and the controls.\<close>

definition escape_char :: "char \<Rightarrow> string" where
  "escape_char c =
     (let n = (of_char c :: nat) in
      if n = 34 then [CHR 0x5C, CHR 0x22]
      else if n = 92 then [CHR 0x5C, CHR 0x5C]
      else if n = 10 then [CHR 0x5C, CHR ''n'']
      else if n = 13 then [CHR 0x5C, CHR ''r'']
      else if n = 9 then [CHR 0x5C, CHR ''t'']
      else if n = 8 then [CHR 0x5C, CHR ''b'']
      else if n = 12 then [CHR 0x5C, CHR ''f'']
      else if n < 32 then
        [CHR 0x5C, CHR ''u'', CHR ''0'', CHR ''0'', hex_char (n div 16), hex_char (n mod 16)]
      else [c])"

definition quote :: "string \<Rightarrow> string" where
  "quote s = CHR 0x22 # concat (map escape_char s) @ [CHR 0x22]"

definition newline_indent :: "nat option \<Rightarrow> nat \<Rightarrow> string" where
  "newline_indent indent level =
     (case indent of None \<Rightarrow> [] | Some n \<Rightarrow> CHR 0x0A # replicate (n * level) CHR '' '')"

definition item_separator :: "nat option \<Rightarrow> nat \<Rightarrow> string" where
  "item_separator indent level =
     (case indent of None \<Rightarrow> '', '' | Some n \<Rightarrow> CHR '','' # newline_indent indent level)"

text \<open>
  \<^verbatim>\<open>json.dumps(v, ensure_ascii=False, indent=indent)\<close>; \<open>level\<close> is the nesting depth, 0 at
  the call.
\<close>

fun dumps :: "nat option \<Rightarrow> nat \<Rightarrow> json \<Rightarrow> string" where
  "dumps indent level JNull = ''null''"
| "dumps indent level (JBool b) = (if b then ''true'' else ''false'')"
| "dumps indent level (JInt i) = show_int i"
| "dumps indent level (JFloat r) = r"
| "dumps indent level (JStr s) = quote s"
| "dumps indent level (JArr xs) =
     (if xs = [] then ''[]''
      else ''['' @ newline_indent indent (level + 1)
           @ join (item_separator indent (level + 1)) (map (dumps indent (level + 1)) xs)
           @ newline_indent indent level @ '']'')"
| "dumps indent level (JObj kvs) =
     (if kvs = [] then ''{}''
      else ''{'' @ newline_indent indent (level + 1)
           @ join (item_separator indent (level + 1))
               (map (\<lambda>(k, v). quote k @ '': '' @ dumps indent (level + 1) v) kvs)
           @ newline_indent indent level @ ''}'')"

section \<open>The world the scripts act on\<close>

text \<open>
  What \<^verbatim>\<open>requests\<close> hands back: \<open>json_body\<close> is the value of \<^verbatim>\<open>response.json()\<close>, or
  \<open>None\<close> where that call raises \<^verbatim>\<open>ValueError\<close>; \<open>body_text\<close> is \<^verbatim>\<open>response.text\<close>.
\<close>

record response =
  status_code :: int
  reason :: string
  body_text :: string
  json_body :: "json option"

text \<open>\<^verbatim>\<open>response.ok\<close>: no client or server error status.\<close>

definition ok :: "response \<Rightarrow> bool" where
  "ok r = (\<not> (400 \<le> status_code r \<and> status_code r < 600))"

record http_request =
  url :: string
  headers :: "(string \<times> string) list"
  media :: string
  params :: string
  timeout :: nat

text \<open>
  The mutable objects are the dictionaries: \<open>heap\<close> holds them, a reference is an index
  into it, and a new object goes to the end.  \<open>files\<close> is the file system (path to
  content) and \<open>sent\<close> the requests posted so far.  Output on the terminal is left out.
  The values a dictionary holds are JSON values, not references: no script stores into a
  nested list or dictionary.
\<close>

record world =
  heap :: "dict list"
  files :: "string \<Rightarrow> string option"
  sent :: "http_request list"

definition alloc :: "dict \<Rightarrow> world \<Rightarrow> nat \<times> world" where
  "alloc d w = (length (heap w), w\<lparr>heap := heap w @ [d]\<rparr>)"

definition dict_set :: "nat \<Rightarrow> string \<Rightarrow> json \<Rightarrow> world \<Rightarrow> world" where
  "dict_set a k v w = w\<lparr>heap := (heap w)[a := AList.update k v (heap w ! a)]\<rparr>"

definition path_join :: "string \<Rightarrow> string \<Rightarrow> string" where
  "path_join d name = d @ ''/'' @ name"

text \<open>
  \<^verbatim>\<open>with tempfile.TemporaryDirectory() as tmpdir\<close>: the body runs, then everything below
  the directory is removed, whether the body returned or raised.  \<open>tmpdir\<close> is the fresh
  name the library picked.
\<close>

definition cleanup :: "string \<Rightarrow> (string \<Rightarrow> string option) \<Rightarrow> (string \<Rightarrow> string option)" where
  "cleanup tmpdir fs = (\<lambda>p. if prefix (tmpdir @ ''/'') p then None else fs p)"

definition with_tmpdir :: "string \<Rightarrow> (world \<Rightarrow> 'a \<times> world) \<Rightarrow> world \<Rightarrow> 'a \<times> world" where
  "with_tmpdir tmpdir body w =
     (case body w of (r, w1) \<Rightarrow> (r, w1\<lparr>files := cleanup tmpdir (files w1)\<rparr>))"

text \<open>\<^verbatim>\<open>path.read_bytes()\<close> and \<^verbatim>\<open>path.write_text(s)\<close>\<close>

definition read_bytes :: "string \<Rightarrow> world \<Rightarrow> error + string" where
  "read_bytes p w = (case files w p of None \<Rightarrow> Inl FileNotFoundError | Some b \<Rightarrow> Inr b)"

definition write_text :: "string \<Rightarrow> string \<Rightarrow> world \<Rightarrow> world" where
  "write_text p s w = w\<lparr>files := (files w)(p \<mapsto> s)\<rparr>"

section \<open>The Clova script\<close>

definition VOICE_DIR :: string where
  "VOICE_DIR = ''data'' @ [CHR 0x5C] @ ''voice''"

definition RESULT_DIR_clova :: string where
  "RESULT_DIR_clova = ''data'' @ [CHR 0x5C] @ ''result_clova''"

definition LANGUAGE :: string where
  "LANGUAGE = ''ko-KR''"

definition CLOVA_COMPLETION :: string where
  "CLOVA_COMPLETION = ''sync''"

text \<open>The client object; \<open>default_params\<close> is a reference to its dictionary.\<close>

record ClovaSpeechClient =
  invoke_url :: string
  secret :: string
  default_params :: nat

text \<open>
  \<^verbatim>\<open>ClovaSpeechClient.__init__\<close>: the argument is \<^verbatim>\<open>None\<close> or a reference to the caller's
  dictionary; \<^verbatim>\<open>dict(default_params)\<close> and \<^verbatim>\<open>{}\<close> both make a new object.
\<close>

definition new_client ::
  "string \<Rightarrow> string \<Rightarrow> nat option \<Rightarrow> world \<Rightarrow> ClovaSpeechClient \<times> world" where
  "new_client iurl sec dp w =
     (let d = (case dp of
                 None \<Rightarrow> []
               | Some a \<Rightarrow> if heap w ! a \<noteq> [] then heap w ! a else [])
      in case alloc d w of
           (a', w') \<Rightarrow> (\<lparr>invoke_url = iurl, secret = sec, default_params = a'\<rparr>, w'))"

text \<open>
  The three shapes of conditional store in \<^verbatim>\<open>req_upload\<close>, on the dictionary at \<open>a\<close>:
  \<^verbatim>\<open>if k not in d: d[k] = v\<close>, \<^verbatim>\<open>if x is not None: d[k] = x\<close> and \<^verbatim>\<open>if x: d[k] = x\<close>.
\<close>

definition set_default :: "nat \<Rightarrow> string \<Rightarrow> json \<Rightarrow> world \<Rightarrow> world" where
  "set_default a k v w = (if \<not> dict_has (heap w ! a) k then dict_set a k v w else w)"

definition set_if_given :: "nat \<Rightarrow> string \<Rightarrow> json option \<Rightarrow> world \<Rightarrow> world" where
  "set_if_given a k x w = (case x of None \<Rightarrow> w | Some v \<Rightarrow> dict_set a k v w)"

definition set_if_truthy :: "nat \<Rightarrow> string \<Rightarrow> json option \<Rightarrow> world \<Rightarrow> world" where
  "set_if_truthy a k x w =
     (case x of None \<Rightarrow> w | Some v \<Rightarrow> if truthy v then dict_set a k v w else w)"

text \<open>
  Lines 80 to 101 of \<^verbatim>\<open>req_upload\<close>: \<^verbatim>\<open>request_body\<close> is a new dictionary, filled in
  place, one conditional store for each \<^verbatim>\<open>if\<close> of the source; the result is the
  reference to it.
\<close>

definition build_request_body ::
  "ClovaSpeechClient \<Rightarrow> string \<Rightarrow> string option \<Rightarrow> string option \<Rightarrow> string list option \<Rightarrow>
   dict list option \<Rightarrow> bool \<Rightarrow> bool \<Rightarrow> dict option \<Rightarrow> dict option \<Rightarrow> world \<Rightarrow> nat \<times> world" where
  "build_request_body self completion callback userdata forbiddens boostings
       word_alignment full_text diarization sed w =
     (case alloc (dict_merge [(''language'', JStr LANGUAGE), (''completion'', JStr completion)]
                    (heap w ! default_params self)) w of
        (request_body, w0) \<Rightarrow>
          let w1 = set_default request_body ''wordAlignment'' (JBool word_alignment) w0;
              w2 = set_default request_body ''fullText'' (JBool full_text) w1;
              w3 = set_if_given request_body ''callback'' (map_option JStr callback) w2;
              w4 = set_if_given request_body ''userdata'' (map_option JStr userdata) w3;
              w5 = set_if_truthy request_body ''forbiddens''
                     (map_option (\<lambda>fs. JArr (map JStr fs)) forbiddens) w4;
              w6 = set_if_truthy request_body ''boostings''
                     (map_option (\<lambda>bs. JArr (map JObj bs)) boostings) w5;
              w7 = set_if_given request_body ''diarization'' (map_option JObj diarization) w6;
              w8 = set_if_given request_body ''sed'' (map_option JObj sed) w7
          in (request_body, w8))"

text \<open>
  \<^verbatim>\<open>req_upload\<close>.  \<open>file\<close> is the path of the clip.  \<open>server\<close> stands for the remote end
  behind \<^verbatim>\<open>requests.post\<close>: given the requests it has seen and the new one, it answers
  or the call raises.
\<close>

definition req_upload ::
  "ClovaSpeechClient \<Rightarrow> string \<Rightarrow> string \<Rightarrow> string option \<Rightarrow> string option \<Rightarrow> string list option \<Rightarrow>
   dict list option \<Rightarrow> bool \<Rightarrow> bool \<Rightarrow> dict option \<Rightarrow> dict option \<Rightarrow>
   (http_request list \<Rightarrow> http_request \<Rightarrow> error + response) \<Rightarrow> world \<Rightarrow> (error + response) \<times> world" where
  "req_upload self file completion callback userdata forbiddens boostings
       word_alignment full_text diarization sed server w =
     (case build_request_body self completion callback userdata forbiddens boostings
             word_alignment full_text diarization sed w of
        (request_body, w1) \<Rightarrow>
          (case read_bytes file w1 of
             Inl e \<Rightarrow> (Inl e, w1)
           | Inr m \<Rightarrow>
               let req = \<lparr>url = invoke_url self @ ''/recognizer/upload'',
                          headers = [(''Accept'', ''application/json;UTF-8''),
                                     (''X-CLOVASPEECH-API-KEY'', secret self)],
                          media = m,
                          params = dumps None 0 (JObj (heap w1 ! request_body)),
                          timeout = 300\<rparr>
               in (server (sent w1) req, w1\<lparr>sent := sent w1 @ [req]\<rparr>)))"

text \<open>\<^verbatim>\<open>_format_error\<close>\<close>

definition format_error :: "response \<Rightarrow> string" where
  "format_error r =
     (case json_body r of
        Some payload \<Rightarrow> dumps None 0 payload
      | None \<Rightarrow> if strip (body_text r) \<noteq> [] then strip (body_text r) else reason r)"

text \<open>The loop of \<^verbatim>\<open>extract_transcript\<close> over the four keys, on a dictionary.\<close>

fun direct_text :: "dict \<Rightarrow> string list \<Rightarrow> string option" where
  "direct_text payload [] = None"
| "direct_text payload (key # keys) =
     (case dict_get payload key of
        JStr t \<Rightarrow> if strip t \<noteq> [] then Some (strip t) else direct_text payload keys
      | _ \<Rightarrow> direct_text payload keys)"

text \<open>The list comprehension over the segments.\<close>

fun segment_lines :: "json list \<Rightarrow> json list" where
  "segment_lines [] = []"
| "segment_lines (JObj segment # rest) =
     (if truthy (dict_get segment ''text'')
      then dict_get_default segment ''text'' (JStr []) # segment_lines rest
      else segment_lines rest)"
| "segment_lines (_ # rest) = segment_lines rest"

text \<open>\<^verbatim>\<open>sep.join\<close> on objects: every item must be a string.\<close>

fun strings_of :: "json list \<Rightarrow> error + string list" where
  "strings_of [] = Inr []"
| "strings_of (JStr s # rest) =
     (case strings_of rest of Inl e \<Rightarrow> Inl e | Inr ss \<Rightarrow> Inr (s # ss))"
| "strings_of (_ # rest) = Inl TypeError"

definition join_json :: "string \<Rightarrow> json list \<Rightarrow> error + string" where
  "join_json sep xs = (case strings_of xs of Inl e \<Rightarrow> Inl e | Inr ss \<Rightarrow> Inr (join sep ss))"

text \<open>\<^verbatim>\<open>extract_transcript\<close>; \<^verbatim>\<open>payload.get\<close> exists on a dictionary only.\<close>

definition extract_transcript :: "response \<Rightarrow> error + string" where
  "extract_transcript r =
     (case json_body r of
        None \<Rightarrow> Inr (strip (body_text r))
      | Some (JObj payload) \<Rightarrow>
          (case direct_text payload [''text'', ''textData'', ''result'', ''transcript''] of
             Some t \<Rightarrow> Inr t
           | None \<Rightarrow>
               (case dict_get payload ''segments'' of
                  JArr segments \<Rightarrow>
                    if segment_lines segments \<noteq> [] then
                      (case join_json ''\<newline>'' (segment_lines segments) of
                         Inl e \<Rightarrow> Inl e
                       | Inr t \<Rightarrow> Inr (strip t))
                    else Inr (dumps (Some 2) 0 (JObj payload))
                | _ \<Rightarrow> Inr (dumps (Some 2) 0 (JObj payload))))
      | Some _ \<Rightarrow> Inl AttributeError)"

text \<open>\<^verbatim>\<open>run_clova\<close>; \<open>clip\<close> is the entry's name in \<^verbatim>\<open>VOICE_DIR\<close>.\<close>

definition run_clova ::
  "ClovaSpeechClient \<Rightarrow> string \<Rightarrow> (http_request list \<Rightarrow> http_request \<Rightarrow> error + response) \<Rightarrow>
   world \<Rightarrow> (error + unit) \<times> world" where
  "run_clova client clip server w =
     (case req_upload client (path_join VOICE_DIR clip) CLOVA_COMPLETION None None None None
             True True None None server w of
        (Inl e, w1) \<Rightarrow> (Inl e, w1)
      | (Inr response, w1) \<Rightarrow>
          if \<not> ok response then
            (Inl (SystemExit (''Clova Speech request failed for '' @ clip @ '' (''
                    @ show_int (status_code response) @ '' '' @ reason response @ ''): ''
                    @ format_error response)), w1)
          else
            (case extract_transcript response of
               Inl e \<Rightarrow> (Inl e, w1)
             | Inr transcript \<Rightarrow>
                 (Inr (), write_text (path_join RESULT_DIR_clova (stem clip @ ''.txt'')) transcript w1)))"

section \<open>The Google script\<close>

definition RESULT_DIR_google :: string where
  "RESULT_DIR_google = ''data'' @ [CHR 0x5C] @ ''result_google''"

definition SAMPLE_RATE :: int where
  "SAMPLE_RATE = 16000"

definition LANGUAGE_CODE :: string where
  "LANGUAGE_CODE = ''ko-KR''"

definition FFMPEG_BIN :: string where
  "FFMPEG_BIN = ''ffmpeg''"

definition ENABLE_PUNCTUATION :: bool where
  "ENABLE_PUNCTUATION = True"

definition USE_LONG_RUNNING :: bool where
  "USE_LONG_RUNNING = True"

text \<open>
  \<^verbatim>\<open>subprocess.run(cmd, check=True)\<close>: the external program, given its command line, acts
  on the file system; it is missing (\<^verbatim>\<open>FileNotFoundError\<close>), exits with a non-zero status
  (\<^verbatim>\<open>CalledProcessError\<close>) or succeeds.
\<close>

type_synonym process =
  "string list \<Rightarrow> (string \<Rightarrow> string option) \<Rightarrow> (error + unit) \<times> (string \<Rightarrow> string option)"

definition subprocess_run :: "process \<Rightarrow> string list \<Rightarrow> world \<Rightarrow> (error + unit) \<times> world" where
  "subprocess_run proc cmd w = (case proc cmd (files w) of (r, fs) \<Rightarrow> (r, w\<lparr>files := fs\<rparr>))"

text \<open>\<^verbatim>\<open>extract_linear16_audio\<close>; \<open>src\<close> is the clip's name in \<^verbatim>\<open>VOICE_DIR\<close>.\<close>

definition extract_linear16_audio ::
  "process \<Rightarrow> string \<Rightarrow> string \<Rightarrow> int \<Rightarrow> world \<Rightarrow> (error + string) \<times> world" where
  "extract_linear16_audio proc tmpdir src sample_rate =
     with_tmpdir tmpdir (\<lambda>w.
       let tmp_wav = path_join tmpdir (stem src @ ''.wav'');
           cmd = [FFMPEG_BIN, ''-y'', ''-i'', path_join VOICE_DIR src, ''-ac'', ''1'', ''-ar'',
                  show_int sample_rate, ''-f'', ''wav'', tmp_wav]
       in case subprocess_run proc cmd w of
            (Inl FileNotFoundError, w1) \<Rightarrow>
              (Inl (SystemExit (''ffmpeg executable not found: '' @ FFMPEG_BIN
                      @ ''. Install ffmpeg and ensure it is on PATH.'')), w1)
          | (Inl e, w1) \<Rightarrow> (Inl e, w1)
          | (Inr u, w1) \<Rightarrow> (read_bytes tmp_wav w1, w1))"

record recognition_config =
  encoding :: string
  sample_rate_hertz :: int
  language_code :: string
  enable_automatic_punctuation :: bool
  max_alternatives :: int

text \<open>
  The recognition response: for every result the transcripts of its alternatives, in
  order.  A long-running operation is done after \<open>finishes_after\<close> time units (never, for
  \<open>None\<close>) with \<open>outcome\<close>; \<^verbatim>\<open>operation.result(timeout=t)\<close> waits for it for at most \<open>t\<close>.
\<close>

type_synonym recognize_response = "string list list"

record operation =
  finishes_after :: "nat option"
  outcome :: "error + recognize_response"

definition operation_result :: "operation \<Rightarrow> nat \<Rightarrow> error + recognize_response" where
  "operation_result operation t =
     (case finishes_after operation of
        None \<Rightarrow> Inl TimeoutError
      | Some d \<Rightarrow> if d \<le> t then outcome operation else Inl TimeoutError)"

record speech_client =
  long_running_recognize :: "recognition_config \<Rightarrow> string \<Rightarrow> error + operation"
  recognize :: "recognition_config \<Rightarrow> string \<Rightarrow> error + recognize_response"

text \<open>The loop of \<^verbatim>\<open>run_google_speech\<close> over the results; \<open>lines\<close> is the list appended to.\<close>

fun transcript_lines :: "recognize_response \<Rightarrow> string list \<Rightarrow> error + string list" where
  "transcript_lines [] lines = Inr lines"
| "transcript_lines (result # rest) lines =
     (case index result 0 of
        Inl e \<Rightarrow> Inl e
      | Inr alternative \<Rightarrow>
          if strip alternative \<noteq> [] then transcript_lines rest (lines @ [strip alternative])
          else transcript_lines rest lines)"

definition no_transcript :: string where
  "no_transcript = ''[No transcript returned]''"

text \<open>Lines 91 to 99: from the response to the text that is written.\<close>

definition google_transcript :: "recognize_response \<Rightarrow> error + string" where
  "google_transcript resp =
     (case transcript_lines resp [] of
        Inl e \<Rightarrow> Inl e
      | Inr lines \<Rightarrow>
          let transcript = strip (join ''\<newline>'' lines)
          in Inr (if transcript = [] then no_transcript else transcript))"

text \<open>Lines 85 to 89: the call, on the long-running path or the synchronous one.\<close>

definition google_call ::
  "bool \<Rightarrow> speech_client \<Rightarrow> recognition_config \<Rightarrow> string \<Rightarrow> error + recognize_response" where
  "google_call long_running client config audio =
     (if long_running then
        (case long_running_recognize client config audio of
           Inl e \<Rightarrow> Inl e
         | Inr operation \<Rightarrow> operation_result operation 900)
      else recognize client config audio)"

definition run_google_speech ::
  "speech_client \<Rightarrow> string \<Rightarrow> process \<Rightarrow> string \<Rightarrow> world \<Rightarrow> (error + unit) \<times> world" where
  "run_google_speech client clip proc tmpdir w =
     (case extract_linear16_audio proc tmpdir clip SAMPLE_RATE w of
        (Inl e, w1) \<Rightarrow> (Inl e, w1)
      | (Inr wav_content, w1) \<Rightarrow>
          let config = \<lparr>encoding = ''LINEAR16'', sample_rate_hertz = SAMPLE_RATE,
                        language_code = LANGUAGE_CODE,
                        enable_automatic_punctuation = ENABLE_PUNCTUATION,
                        max_alternatives = 1\<rparr>
          in (case google_call USE_LONG_RUNNING client config wav_content of
                Inl e \<Rightarrow> (Inl e, w1)
              | Inr resp \<Rightarrow>
                  (case google_transcript resp of
                     Inl e \<Rightarrow> (Inl e, w1)
                   | Inr transcript \<Rightarrow>
                       (Inr (), write_text (path_join RESULT_DIR_google (stem clip @ ''.txt''))
                                  transcript w1))))"

section \<open>The Vosk script\<close>

definition RESULT_DIR_vosk :: string where
  "RESULT_DIR_vosk = ''data'' @ [CHR 0x5C] @ ''result_vosk''"

definition FFMPEG_ARGS :: "string list" where
  "FFMPEG_ARGS = [''-ac'', ''1'', ''-ar'', ''16000'']"

text \<open>\<^verbatim>\<open>convert_to_wav\<close>\<close>

definition convert_to_wav :: "process \<Rightarrow> string \<Rightarrow> string \<Rightarrow> world \<Rightarrow> (error + unit) \<times> world" where
  "convert_to_wav proc src dst w =
     subprocess_run proc ([FFMPEG_BIN, ''-y'', ''-i'', src] @ FFMPEG_ARGS @ [dst]) w"

text \<open>
  The decoder: a state of type \<open>'s\<close> and its three methods.  \<open>Result\<close> and \<open>FinalResult\<close>
  give the decoded JSON document of the text the library returns.
\<close>

record 's KaldiRecognizer =
  AcceptWaveform :: "'s \<Rightarrow> string \<Rightarrow> bool \<times> 's"
  Result :: "'s \<Rightarrow> json \<times> 's"
  FinalResult :: "'s \<Rightarrow> json \<times> 's"

text \<open>\<^verbatim>\<open>json.loads(...).get("text", "")\<close>\<close>

definition text_of :: "json \<Rightarrow> error + json" where
  "text_of j = (case j of JObj d \<Rightarrow> Inr (dict_get_default d ''text'' (JStr [])) | _ \<Rightarrow> Inl AttributeError)"

text \<open>The successive values of \<^verbatim>\<open>wf.readframes(n)\<close> before the empty one.\<close>

function chunks :: "nat \<Rightarrow> string \<Rightarrow> string list" where
  "chunks n xs = (if n = 0 \<or> xs = [] then [] else take n xs # chunks n (drop n xs))"
  by pat_completeness auto
termination
  by (relation "measure (\<lambda>(n, xs). length xs)") auto

declare chunks.simps [simp del]

text \<open>The \<^verbatim>\<open>while\<close> loop of \<^verbatim>\<open>transcribe\<close> over the chunks read.\<close>

fun feed ::
  "'s KaldiRecognizer \<Rightarrow> string list \<Rightarrow> 's \<Rightarrow> json list \<Rightarrow> error + (json list \<times> 's)" where
  "feed rec [] st pieces = Inr (pieces, st)"
| "feed rec (data # rest) st pieces =
     (case AcceptWaveform rec st data of
        (True, st1) \<Rightarrow>
          (case Result rec st1 of
             (j, st2) \<Rightarrow>
               (case text_of j of
                  Inl e \<Rightarrow> Inl e
                | Inr piece \<Rightarrow> feed rec rest st2 (pieces @ [piece])))
      | (False, st1) \<Rightarrow> feed rec rest st1 pieces)"

text \<open>Lines 62 to 64: the final flush and the joined text.\<close>

definition finish :: "'s KaldiRecognizer \<Rightarrow> 's \<Rightarrow> json list \<Rightarrow> error + string" where
  "finish rec st pieces =
     (case text_of (fst (FinalResult rec st)) of
        Inl e \<Rightarrow> Inl e
      | Inr piece \<Rightarrow>
          (case join_json '' '' (filter truthy (pieces @ [piece])) of
             Inl e \<Rightarrow> Inl e
           | Inr t \<Rightarrow> Inr (strip t)))"

text \<open>
  \<^verbatim>\<open>transcribe\<close>.  \<open>wave_open\<close> stands for the \<^verbatim>\<open>wave\<close> module: from the bytes of the file
  to the size of a frame and the frame data, or \<^verbatim>\<open>wave.Error\<close>.  \<open>st0\<close> is the state of the
  recognizer just made.
\<close>

definition transcribe ::
  "string \<Rightarrow> 's KaldiRecognizer \<Rightarrow> 's \<Rightarrow> (string \<Rightarrow> error + nat \<times> string) \<Rightarrow> world \<Rightarrow> error + string" where
  "transcribe audio_wav rec st0 wave_open w =
     (case read_bytes audio_wav w of
        Inl e \<Rightarrow> Inl e
      | Inr content \<Rightarrow>
          (case wave_open content of
             Inl e \<Rightarrow> Inl e
           | Inr (frame_size, frames) \<Rightarrow>
               (case feed rec (chunks (4000 * frame_size) frames) st0 [] of
                  Inl e \<Rightarrow> Inl e
                | Inr (pieces, st) \<Rightarrow> finish rec st pieces)))"

text \<open>\<^verbatim>\<open>run_vosk\<close>\<close>

definition run_vosk ::
  "string \<Rightarrow> 's KaldiRecognizer \<Rightarrow> 's \<Rightarrow> (string \<Rightarrow> error + nat \<times> string) \<Rightarrow> process \<Rightarrow> string \<Rightarrow>
   world \<Rightarrow> (error + unit) \<times> world" where
  "run_vosk clip rec st0 wave_open proc tmpdir w =
     (case with_tmpdir tmpdir (\<lambda>w.
             let wav_path = path_join tmpdir (stem clip @ ''.wav'')
             in case convert_to_wav proc (path_join VOICE_DIR clip) wav_path w of
                  (Inl e, w1) \<Rightarrow> (Inl e, w1)
                | (Inr u, w1) \<Rightarrow> (transcribe wav_path rec st0 wave_open w1, w1)) w of
        (Inl e, w2) \<Rightarrow> (Inl e, w2)
      | (Inr txt, w2) \<Rightarrow>
          (Inr (), write_text (path_join RESULT_DIR_vosk (stem clip @ ''.txt'')) txt w2))"

section \<open>Notions used to state the properties\<close>

text \<open>The clip id of a name, when parsing gives one.\<close>

definition clip_id :: "string \<Rightarrow> int option" where
  "clip_id name = (case parse_clip_id name of Inr r \<Rightarrow> r | Inl e \<Rightarrow> None)"

text \<open>A name the selection keeps: matched by the pattern, with an id not below the start.\<close>

definition keeps :: "int \<Rightarrow> string \<Rightarrow> bool" where
  "keeps start_id name = (case clip_id name of None \<Rightarrow> False | Some c \<Rightarrow> start_id \<le> c)"

definition qualifies :: "int \<Rightarrow> string \<Rightarrow> bool" where
  "qualifies start_id name = (glob_match name \<and> keeps start_id name)"

text \<open>The pairs the loop of the selection collects from a list of names.\<close>

definition entries :: "int \<Rightarrow> string list \<Rightarrow> (int \<times> string) list" where
  "entries start_id names =
     concat (map (\<lambda>n. case clip_id n of
                          None \<Rightarrow> []
                        | Some c \<Rightarrow> if c < start_id then [] else [(c, n)]) names)"

text \<open>The collected pairs of a listing, after the sort.\<close>

definition ranked :: "string list \<Rightarrow> int \<Rightarrow> (int \<times> string) list" where
  "ranked listing start_id = sort_key fst (entries start_id (filter glob_match listing))"

text \<open>The identifier token of a name: what follows the first underscore of the stem.\<close>

definition token :: "string \<Rightarrow> string option" where
  "token name = (case index (split1 CHR ''_'' (stem name)) 1 of Inl e \<Rightarrow> None | Inr tok \<Rightarrow> Some tok)"

text \<open>
  The trimmed first alternatives of the results that are not empty after trimming; a
  result without an alternative contributes nothing.
\<close>

definition first_texts :: "recognize_response \<Rightarrow> string list" where
  "first_texts resp =
     concat (map (\<lambda>r. case r of
                          [] \<Rightarrow> []
                        | a # _ \<Rightarrow> if strip a \<noteq> [] then [strip a] else []) resp)"

text \<open>A key under which the payload holds a string that is not blank.\<close>

definition usable_text :: "dict \<Rightarrow> string \<Rightarrow> bool" where
  "usable_text payload k = (case dict_get payload k of JStr t \<Rightarrow> strip t \<noteq> [] | _ \<Rightarrow> False)"

text \<open>
  A run of calls of \<^verbatim>\<open>req_upload\<close> on one client, each with its own arguments (file,
  completion, callback, userdata, forbiddens, boostings, word alignment, full text,
  diarization, sed); the responses are dropped.
\<close>

type_synonym upload_args =
  "string \<times> string \<times> string option \<times> string option \<times> string list option \<times> dict list option
   \<times> bool \<times> bool \<times> dict option \<times> dict option"

fun uploads ::
  "ClovaSpeechClient \<Rightarrow> upload_args list \<Rightarrow>
   (http_request list \<Rightarrow> http_request \<Rightarrow> error + response) \<Rightarrow> world \<Rightarrow> world" where
  "uploads self [] server w = w"
| "uploads self ((file, completion, callback, userdata, forbiddens, boostings, word_alignment,
                  full_text, diarization, sed) # rest) server w =
     uploads self rest server
       (snd (req_upload self file completion callback userdata forbiddens boostings
               word_alignment full_text diarization sed server w))"

text \<open>The conditional stores on a dictionary value, and the request body as a value.\<close>

definition put_default :: "string \<Rightarrow> json \<Rightarrow> dict \<Rightarrow> dict" where
  "put_default k v d = (if dict_has d k then d else AList.update k v d)"

definition put_if_given :: "string \<Rightarrow> json option \<Rightarrow> dict \<Rightarrow> dict" where
  "put_if_given k x d = (case x of None \<Rightarrow> d | Some v \<Rightarrow> AList.update k v d)"

definition put_if_truthy :: "string \<Rightarrow> json option \<Rightarrow> dict \<Rightarrow> dict" where
  "put_if_truthy k x d =
     (case x of None \<Rightarrow> d | Some v \<Rightarrow> if truthy v then AList.update k v d else d)"

definition request_body_of ::
  "dict \<Rightarrow> string \<Rightarrow> string option \<Rightarrow> string option \<Rightarrow> string list option \<Rightarrow>
   dict list option \<Rightarrow> bool \<Rightarrow> bool \<Rightarrow> dict option \<Rightarrow> dict option \<Rightarrow> dict" where
  "request_body_of options completion callback userdata forbiddens boostings
       word_alignment full_text diarization sed =
     put_if_given ''sed'' (map_option JObj sed)
      (put_if_given ''diarization'' (map_option JObj diarization)
        (put_if_truthy ''boostings'' (map_option (\<lambda>bs. JArr (map JObj bs)) boostings)
          (put_if_truthy ''forbiddens'' (map_option (\<lambda>fs. JArr (map JStr fs)) forbiddens)
            (put_if_given ''userdata'' (map_option JStr userdata)
              (put_if_given ''callback'' (map_option JStr callback)
                (put_default ''fullText'' (JBool full_text)
                  (put_default ''wordAlignment'' (JBool word_alignment)
                    (dict_merge [(''language'', JStr LANGUAGE), (''completion'', JStr completion)]
                       options))))))))"

text \<open>The request \<^verbatim>\<open>req_upload\<close> posts for a clip's bytes and a request body.\<close>

definition upload_request :: "ClovaSpeechClient \<Rightarrow> string \<Rightarrow> dict \<Rightarrow> http_request" where
  "upload_request self m body =
     \<lparr>url = invoke_url self @ ''/recognizer/upload'',
      headers = [(''Accept'', ''application/json;UTF-8''),
                 (''X-CLOVASPEECH-API-KEY'', secret self)],
      media = m,
      params = dumps None 0 (JObj body),
      timeout = 300\<rparr>"

text \<open>A path below a directory.\<close>

definition below :: "string \<Rightarrow> string \<Rightarrow> bool" where
  "below d p = prefix (d @ ''/'') p"


section \<open>Clip selection: lemmas\<close>

lemma parse_clip_id_raw_errors:
  "parse_clip_id_raw p = Inl e \<Longrightarrow> e = IndexError \<or> e = ValueError"
  by (auto simp: parse_clip_id_raw_def index_def py_int_def Let_def
           split: sum.splits if_splits list.splits)

lemma parse_clip_id_total: "parse_clip_id p = Inr (clip_id p)"
proof (cases "parse_clip_id_raw p")
  case (Inl e)
  with parse_clip_id_raw_errors[OF Inl] show ?thesis
    by (auto simp: clip_id_def parse_clip_id_def)
next
  case (Inr n)
  then show ?thesis by (simp add: clip_id_def parse_clip_id_def)
qed

lemma entries_Nil: "entries s [] = []"
  by (simp add: entries_def)

lemma entries_Cons:
  "entries s (n # ns) =
     (case clip_id n of None \<Rightarrow> [] | Some c \<Rightarrow> if c < s then [] else [(c, n)]) @ entries s ns"
  by (simp add: entries_def)

lemma entries_append: "entries s (xs @ ys) = entries s xs @ entries s ys"
  by (simp add: entries_def)

lemma select_loop_entries: "select_loop s xs acc = Inr (acc @ entries s xs)"
  by (induction xs arbitrary: acc)
     (simp_all add: entries_Nil entries_Cons parse_clip_id_total split: option.splits)

lemma entries_names: "map snd (entries s xs) = filter (keeps s) xs"
  by (induction xs) (auto simp: entries_Nil entries_Cons keeps_def split: option.splits)

lemma entries_ids: "p \<in> set (entries s xs) \<Longrightarrow> clip_id (snd p) = Some (fst p)"
  by (auto simp: entries_def split: option.splits if_splits)

lemma filter_qualifies: "filter (keeps s) (filter glob_match L) = filter (qualifies s) L"
  by (induction L) (auto simp: qualifies_def)

lemma select_targets_entries:
  "select_targets L s lim =
     Inr (map snd (py_take lim (sort_key fst (entries s (filter glob_match L)))))"
  by (simp add: select_targets_def select_loop_entries)

lemma distinct_map_sort_key: "distinct (map f (sort_key f xs)) = distinct (map f xs)"
  by (induction xs) (simp_all add: distinct_insort_key)

lemma py_take_nonneg: "0 \<le> n \<Longrightarrow> py_take n xs = take (nat n) xs"
  by (simp add: py_take_def)

lemma py_take_subset: "set (py_take n xs) \<subseteq> set xs"
  by (auto simp: py_take_def dest: in_set_takeD)


lemma select_targets_ranked:
  "select_targets L s lim = Inr (map snd (py_take lim (ranked L s)))"
  by (simp add: select_targets_entries ranked_def)

lemma ranked_ids: "p \<in> set (ranked L s) \<Longrightarrow> clip_id (snd p) = Some (fst p)"
  unfolding ranked_def by (simp add: entries_ids)

lemma ranked_names: "set (map snd (ranked L s)) = {n \<in> set L. qualifies s n}"
proof -
  have "set (map snd (ranked L s)) = set (map snd (entries s (filter glob_match L)))"
    unfolding ranked_def by simp
  also have "\<dots> = set (filter (qualifies s) L)"
    unfolding entries_names filter_qualifies ..
  finally show ?thesis by simp
qed

lemma ranked_length: "length (ranked L s) = length (filter (qualifies s) L)"
proof -
  have "length (ranked L s) = length (map snd (entries s (filter glob_match L)))"
    unfolding ranked_def by simp
  also have "\<dots> = length (filter (qualifies s) L)"
    unfolding entries_names filter_qualifies ..
  finally show ?thesis .
qed

lemma ranked_sorted: "sorted (map fst (ranked L s))"
  unfolding ranked_def by simp

lemma ranked_clip_ids:
  "map clip_id (filter (qualifies s) L) =
     map Some (map fst (entries s (filter glob_match L)))"
proof -
  let ?zs = "entries s (filter glob_match L)"
  have "map clip_id (filter (qualifies s) L) = map clip_id (map snd ?zs)"
    unfolding entries_names filter_qualifies ..
  also have "\<dots> = map (\<lambda>p. clip_id (snd p)) ?zs" by simp
  also have "\<dots> = map (\<lambda>p. Some (fst p)) ?zs"
    by (rule map_cong) (simp_all add: entries_ids)
  also have "\<dots> = map Some (map fst ?zs)" by simp
  finally show ?thesis .
qed

lemma ranked_distinct:
  assumes "distinct (map clip_id (filter (qualifies s) L))"
  shows "distinct (map fst (ranked L s))"
proof -
  have "distinct (map Some (map fst (entries s (filter glob_match L))))"
    using assms unfolding ranked_clip_ids .
  then have "distinct (map fst (entries s (filter glob_match L)))"
    by (rule distinct_map[THEN iffD1, THEN conjunct1])
  then show ?thesis unfolding ranked_def by (simp add: distinct_map_sort_key)
qed

lemma taken_ids:
  "map parse_clip_id (map snd (take k (ranked L s))) =
     map (\<lambda>i. Inr (Some i)) (map fst (take k (ranked L s)))"
proof -
  have "map parse_clip_id (map snd (take k (ranked L s))) =
          map (\<lambda>p. Inr (clip_id (snd p))) (take k (ranked L s))"
    by (simp add: parse_clip_id_total)
  also have "\<dots> = map (\<lambda>p. Inr (Some (fst p))) (take k (ranked L s))"
  proof (rule map_cong)
    fix p assume "p \<in> set (take k (ranked L s))"
    then have "p \<in> set (ranked L s)" by (rule in_set_takeD)
    then show "Inr (clip_id (snd p)) = Inr (Some (fst p))" by (simp add: ranked_ids)
  qed simp
  also have "\<dots> = map (\<lambda>i. Inr (Some i)) (map fst (take k (ranked L s)))" by simp
  finally show ?thesis .
qed

lemma taken_sorted: "sorted (map fst (take k (ranked L s)))"
  using ranked_sorted[of L s] by (simp add: take_map[symmetric])

lemma taken_strict:
  assumes "distinct (map clip_id (filter (qualifies s) L))"
  shows "sorted_wrt (<) (map fst (take k (ranked L s)))"
proof -
  have "distinct (map fst (take k (ranked L s)))"
    using ranked_distinct[OF assms] by (simp add: take_map[symmetric])
  with taken_sorted show ?thesis by (simp add: strict_sorted_iff)
qed

lemma taken_smallest:
  assumes nL: "n \<in> set L" and q: "qualifies s n"
    and out: "n \<notin> set (map snd (take k (ranked L s)))"
    and m: "m \<in> set (map snd (take k (ranked L s)))"
    and a: "clip_id m = Some a" and b: "clip_id n = Some b"
  shows "a \<le> b"
proof -
  let ?ys = "ranked L s"
  have "n \<in> set (map snd ?ys)" using nL q unfolding ranked_names by simp
  then obtain p where p: "p \<in> set ?ys" "snd p = n" by auto
  have "p \<notin> set (take k ?ys)" using out p(2) by auto
  with p(1) have pd: "p \<in> set (drop k ?ys)"
    by (metis append_take_drop_id set_append Un_iff)
  from m obtain r where r: "r \<in> set (take k ?ys)" "snd r = m" by auto
  have "sorted (take k (map fst ?ys) @ drop k (map fst ?ys))"
    using ranked_sorted[of L s] by simp
  then have "\<forall>x \<in> set (take k (map fst ?ys)). \<forall>y \<in> set (drop k (map fst ?ys)). x \<le> y"
    unfolding sorted_append by blast
  moreover have "fst r \<in> set (take k (map fst ?ys))" using r(1) by (simp add: take_map)
  moreover have "fst p \<in> set (drop k (map fst ?ys))" using pd by (simp add: drop_map)
  ultimately have "fst r \<le> fst p" by blast
  moreover have "clip_id (snd r) = Some (fst r)"
    using in_set_takeD[OF r(1)] by (rule ranked_ids)
  moreover have "clip_id (snd p) = Some (fst p)"
    using p(1) by (simp add: ranked_ids)
  ultimately show ?thesis using a b r(2) p(2) by simp
qed

text \<open>
  Claim C1, as the code has it.  For a limit that is not negative, \<^verbatim>\<open>select_targets\<close>
  returns a list \<open>sel\<close> of entries of the listing that match the pattern and whose parsed
  clip id is defined and not below the start id; their ids are in ascending order of the
  integer value, and in strictly ascending order when no two qualifying entries share an
  id; the length is the smaller of the limit and the number of qualifying entries; a
  qualifying entry left out has an id not below that of any selected entry; and when the
  limit does not cut, the selection is the set of all qualifying entries.
\<close>

theorem select_targets_filtered_sorted_capped:
  assumes "0 \<le> limit"
  shows "\<exists>sel ids. select_targets listing start_id limit = Inr sel
      \<and> set sel \<subseteq> {n \<in> set listing. qualifies start_id n}
      \<and> map parse_clip_id sel = map (\<lambda>i. Inr (Some i)) ids \<and> sorted ids
      \<and> (distinct (map clip_id (filter (qualifies start_id) listing)) \<longrightarrow> sorted_wrt (<) ids)
      \<and> length sel = min (nat limit) (length (filter (qualifies start_id) listing))
      \<and> (\<forall>n \<in> set listing. \<forall>m \<in> set sel. \<forall>a b.
            qualifies start_id n \<and> n \<notin> set sel \<and> clip_id m = Some a \<and> clip_id n = Some b
            \<longrightarrow> a \<le> b)
      \<and> (length (filter (qualifies start_id) listing) \<le> nat limit
            \<longrightarrow> set sel = {n \<in> set listing. qualifies start_id n})"
proof -
  let ?ys = "ranked listing start_id"
  let ?k = "nat limit"
  let ?sel = "map snd (take ?k ?ys)"
  let ?ids = "map fst (take ?k ?ys)"
  have sel: "select_targets listing start_id limit = Inr ?sel"
    using assms by (simp add: select_targets_ranked py_take_nonneg)
  have sub: "set ?sel \<subseteq> {n \<in> set listing. qualifies start_id n}"
  proof -
    have "set ?sel \<subseteq> set (map snd ?ys)" by (auto dest: in_set_takeD)
    then show ?thesis unfolding ranked_names .
  qed
  have ids: "map parse_clip_id ?sel = map (\<lambda>i. Inr (Some i)) ?ids"
    by (rule taken_ids)
  have srt: "sorted ?ids" by (rule taken_sorted)
  have strict: "distinct (map clip_id (filter (qualifies start_id) listing)) \<longrightarrow> sorted_wrt (<) ?ids"
    using taken_strict by blast
  have len: "length ?sel = min (nat limit) (length (filter (qualifies start_id) listing))"
    by (simp add: ranked_length min.commute)
  have small: "\<forall>n \<in> set listing. \<forall>m \<in> set ?sel. \<forall>a b.
            qualifies start_id n \<and> n \<notin> set ?sel \<and> clip_id m = Some a \<and> clip_id n = Some b
            \<longrightarrow> a \<le> b"
    using taken_smallest by blast
  have all: "length (filter (qualifies start_id) listing) \<le> nat limit
            \<longrightarrow> set ?sel = {n \<in> set listing. qualifies start_id n}"
  proof
    assume "length (filter (qualifies start_id) listing) \<le> nat limit"
    then have "take ?k ?ys = ?ys" by (simp add: ranked_length)
    then show "set ?sel = {n \<in> set listing. qualifies start_id n}"
      using ranked_names[of listing start_id] by simp
  qed
  from sel sub ids srt strict len small all show ?thesis by blast
qed


text \<open>
  The statement at a listing of five entries with start id 5 and limit 2: the ids of
  the qualifying entries differ, and the two selected ids are strictly ascending.
\<close>

theorem select_targets_filtered_sorted_capped_witness:
  "(0::int) \<le> 2
   \<and> distinct (map clip_id (filter (qualifies 5)
        [''MYR_10.mp4'', ''MYR_9.mp4'', ''MYR_bad.mp4'', ''MYR_3.mp4'', ''MYR_12.mp4'']))
   \<and> (\<exists>sel ids. select_targets
          [''MYR_10.mp4'', ''MYR_9.mp4'', ''MYR_bad.mp4'', ''MYR_3.mp4'', ''MYR_12.mp4''] 5 2 = Inr sel
        \<and> map parse_clip_id sel = map (\<lambda>i. Inr (Some i)) ids
        \<and> sorted_wrt (<) ids \<and> length sel = 2)"
proof -
  let ?L = "[''MYR_10.mp4'', ''MYR_9.mp4'', ''MYR_bad.mp4'', ''MYR_3.mp4'', ''MYR_12.mp4'']"
  have h: "(0::int) \<le> 2" by simp
  have d: "distinct (map clip_id (filter (qualifies 5) ?L))" by code_simp
  have n: "length (filter (qualifies 5) ?L) = 3" by code_simp
  from select_targets_filtered_sorted_capped[OF h, of ?L 5] d n show ?thesis
    by auto
qed

text \<open>
  Claim C1 as stated asks for a strictly ascending order.  Two entries may carry the same
  id (\<^verbatim>\<open>MYR_7.mp4\<close> and \<^verbatim>\<open>MYR_07.mp4\<close>); both are selected and the order is not strict.
\<close>

theorem select_targets_ties_counterexample:
  "select_targets [''MYR_7.mp4'', ''MYR_07.mp4''] 0 2 = Inr [''MYR_7.mp4'', ''MYR_07.mp4'']
   \<and> map parse_clip_id [''MYR_7.mp4'', ''MYR_07.mp4''] = [Inr (Some 7), Inr (Some 7)]
   \<and> \<not> sorted_wrt (<) [7::int, 7]"
  by code_simp

text \<open>
  Claim C2 as stated: on the four names of the scenario the selection would be
  \<^verbatim>\<open>MYR_17388_y.mp4\<close>, \<^verbatim>\<open>MYR_17390_x.mp4\<close>.  It is not.
\<close>

theorem scenario_counterexample:
  "select_targets [''MYR_17390_x.mp4'', ''MYR_17388_y.mp4'', ''MYR_bad.mp4'', ''MYR_17395_z.mp4'']
     17388 2 \<noteq> Inr [''MYR_17388_y.mp4'', ''MYR_17390_x.mp4'']"
  by code_simp

text \<open>
  Claim C2, as the code has it.  The token is all that follows the first underscore of the
  stem, so \<^verbatim>\<open>17390_x\<close> is no integer literal: all four names of the scenario are malformed
  and the selection is empty.  With the names \<^verbatim>\<open>MYR_17390.mp4\<close>, \<^verbatim>\<open>MYR_17388.mp4\<close>,
  \<^verbatim>\<open>MYR_bad.mp4\<close>, \<^verbatim>\<open>MYR_17395.mp4\<close> and the same criteria the selection is
  \<^verbatim>\<open>MYR_17388.mp4\<close>, \<^verbatim>\<open>MYR_17390.mp4\<close>, in that order.
\<close>

theorem scenario_amended:
  "select_targets [''MYR_17390_x.mp4'', ''MYR_17388_y.mp4'', ''MYR_bad.mp4'', ''MYR_17395_z.mp4'']
     17388 2 = Inr []
   \<and> parse_clip_id ''MYR_17390_x.mp4'' = Inr None
   \<and> parse_clip_id ''MYR_17388_y.mp4'' = Inr None
   \<and> parse_clip_id ''MYR_bad.mp4'' = Inr None
   \<and> parse_clip_id ''MYR_17395_z.mp4'' = Inr None
   \<and> select_targets [''MYR_17390.mp4'', ''MYR_17388.mp4'', ''MYR_bad.mp4'', ''MYR_17395.mp4'']
     17388 2 = Inr [''MYR_17388.mp4'', ''MYR_17390.mp4'']"
  by code_simp

lemma token_None_parse: "token name = None \<Longrightarrow> parse_clip_id name = Inr None"
  by (auto simp: token_def parse_clip_id_def parse_clip_id_raw_def index_def
           split: sum.splits if_splits)

lemma token_rejected_parse:
  "token name = Some tok \<Longrightarrow> py_int tok = Inl ValueError \<Longrightarrow> parse_clip_id name = Inr None"
  by (auto simp: token_def parse_clip_id_def parse_clip_id_raw_def split: sum.splits)

lemma entries_skip: "clip_id n = None \<Longrightarrow> entries s (xs @ n # ys) = entries s (xs @ ys)"
  by (simp add: entries_def)

lemma select_targets_skip:
  assumes "clip_id n = None"
  shows "select_targets (xs @ n # ys) s lim = select_targets (xs @ ys) s lim"
proof -
  have "entries s (filter glob_match (xs @ n # ys)) = entries s (filter glob_match (xs @ ys))"
    using assms by (simp add: entries_append entries_Cons)
  then show ?thesis by (simp only: select_targets_entries)
qed

lemma in_dropWhile: "c \<in> set xs \<Longrightarrow> \<not> P c \<Longrightarrow> c \<in> set (dropWhile P xs)"
  by (induction xs) auto

lemma strip_by_keeps: "c \<in> set s \<Longrightarrow> \<not> P c \<Longrightarrow> c \<in> set (strip_by P s)"
  by (simp add: strip_by_def in_dropWhile)

lemma digits_ok_chars: "digits_ok xs \<Longrightarrow> c \<in> set xs \<Longrightarrow> is_digit c \<or> c = CHR ''_''"
  by (induction xs rule: digits_ok.induct) (auto split: if_splits)

lemma py_int_rejects:
  assumes "c \<in> set tok" and "\<not> is_digit c" and "c \<noteq> CHR ''_''" and "c \<noteq> CHR ''+''"
    and "c \<noteq> CHR ''-''" and "\<not> int_space c"
  shows "py_int tok = Inl ValueError"
proof -
  let ?t = "strip_by int_space tok"
  have c: "c \<in> set ?t" using assms(1,6) by (rule strip_by_keeps)
  then obtain c0 r where t: "?t = c0 # r" by (cases ?t) auto
  have nt: "\<not> digits_ok ?t" using digits_ok_chars[OF _ c] assms(2,3) by blast
  have nr: "c0 = CHR ''-'' \<or> c0 = CHR ''+'' \<Longrightarrow> \<not> digits_ok r"
  proof
    assume s: "c0 = CHR ''-'' \<or> c0 = CHR ''+''" and d: "digits_ok r"
    from c t s assms(4,5) have "c \<in> set r" by auto
    from digits_ok_chars[OF d this] assms(2,3) show False by blast
  qed
  show ?thesis using nt nr t by (auto simp: py_int_def Let_def)
qed

lemma digits_ok_has_digit: "digits_ok xs \<Longrightarrow> \<exists>c \<in> set xs. is_digit c"
  by (induction xs rule: digits_ok.induct) auto

lemma strip_by_subset: "set (strip_by P s) \<subseteq> set s"
proof
  fix x assume "x \<in> set (strip_by P s)"
  then have "x \<in> set (dropWhile P (rev (dropWhile P s)))" by (simp add: strip_by_def)
  then have "x \<in> set (rev (dropWhile P s))" by (rule set_dropWhileD)
  then have "x \<in> set (dropWhile P s)" by simp
  then show "x \<in> set s" by (rule set_dropWhileD)
qed

lemma py_int_needs_digit:
  assumes "\<forall>c \<in> set tok. \<not> is_digit c"
  shows "py_int tok = Inl ValueError"
proof -
  let ?t = "strip_by int_space tok"
  have n: "\<forall>c \<in> set ?t. \<not> is_digit c" using assms strip_by_subset by blast
  then have "\<not> digits_ok ?t" using digits_ok_has_digit by blast
  moreover have "\<not> digits_ok (tl ?t)"
    using n digits_ok_has_digit[of "tl ?t"] by (cases ?t) auto
  ultimately show ?thesis by (auto simp: py_int_def Let_def split: list.splits)
qed


text \<open>
  Claim C8.  A name whose stem has no underscore (the token is absent), or whose token
  has no digit, or has a character that is no digit, underscore, sign or blank, or is in
  any other way rejected by \<^verbatim>\<open>int()\<close>, parses to \<^verbatim>\<open>None\<close> and not to an exception; wherever
  it stands in the listing, the selection is the one made without it, it returns, and
  the name is not in it.
\<close>

theorem malformed_name_is_skipped:
  assumes "token name = None
     \<or> (\<exists>tok. token name = Some tok
          \<and> (py_int tok = Inl ValueError
             \<or> (\<forall>c \<in> set tok. \<not> is_digit c)
             \<or> (\<exists>c \<in> set tok. \<not> is_digit c \<and> c \<noteq> CHR ''_'' \<and> c \<noteq> CHR ''+''
                    \<and> c \<noteq> CHR ''-'' \<and> \<not> int_space c)))"
  shows "parse_clip_id name = Inr None
     \<and> select_targets (before @ name # after) start_id limit
         = select_targets (before @ after) start_id limit
     \<and> (\<exists>sel. select_targets (before @ name # after) start_id limit = Inr sel \<and> name \<notin> set sel)"
proof -
  have "token name = None \<or> (\<exists>tok. token name = Some tok \<and> py_int tok = Inl ValueError)"
    using assms py_int_needs_digit py_int_rejects by blast
  then have p: "parse_clip_id name = Inr None"
    using token_None_parse token_rejected_parse by blast
  then have c: "clip_id name = None" by (simp add: clip_id_def)
  have q: "\<not> qualifies start_id name" using c by (simp add: qualifies_def keeps_def)
  let ?sel = "map snd (py_take limit (ranked (before @ name # after) start_id))"
  have "set ?sel \<subseteq> set (map snd (ranked (before @ name # after) start_id))"
    using py_take_subset[of limit "ranked (before @ name # after) start_id"] by auto
  then have "name \<notin> set ?sel" using q unfolding ranked_names by auto
  with p select_targets_skip[OF c] select_targets_ranked show ?thesis by blast
qed

text \<open>The statement at \<^verbatim>\<open>MYR_bad.mp4\<close>, between two well-formed names.\<close>

theorem malformed_name_is_skipped_witness:
  "token ''MYR_bad.mp4'' = Some ''bad''
   \<and> \<not> is_digit CHR ''b'' \<and> \<not> is_digit CHR ''a'' \<and> \<not> is_digit CHR ''d''
   \<and> parse_clip_id ''MYR_bad.mp4'' = Inr None
   \<and> select_targets ([''MYR_9.mp4''] @ ''MYR_bad.mp4'' # [''MYR_10.mp4'']) 0 5
        = select_targets ([''MYR_9.mp4''] @ [''MYR_10.mp4'']) 0 5"
proof -
  have t: "token ''MYR_bad.mp4'' = Some ''bad''" by code_simp
  have r: "\<forall>c \<in> set ''bad''. \<not> is_digit c" by (simp add: is_digit_def)
  have h: "token ''MYR_bad.mp4'' = None
     \<or> (\<exists>tok. token ''MYR_bad.mp4'' = Some tok
          \<and> (py_int tok = Inl ValueError
             \<or> (\<forall>c \<in> set tok. \<not> is_digit c)
             \<or> (\<exists>c \<in> set tok. \<not> is_digit c \<and> c \<noteq> CHR ''_'' \<and> c \<noteq> CHR ''+''
                    \<and> c \<noteq> CHR ''-'' \<and> \<not> int_space c)))"
    using t r by blast
  have d: "\<not> is_digit CHR ''b'' \<and> \<not> is_digit CHR ''a'' \<and> \<not> is_digit CHR ''d''"
    by (simp add: is_digit_def)
  from malformed_name_is_skipped[OF h, of "[''MYR_9.mp4'']" "[''MYR_10.mp4'']" 0 5] t d
  show ?thesis by blast
qed


section \<open>Trimming and joining: lemmas\<close>

lemma last_dropWhile: "dropWhile P xs \<noteq> [] \<Longrightarrow> last (dropWhile P xs) = last xs"
  by (metis takeWhile_dropWhile_id last_appendR)

lemma strip_by_ends:
  assumes "strip_by P s \<noteq> []"
  shows "\<not> P (hd (strip_by P s))" and "\<not> P (last (strip_by P s))"
proof -
  let ?u = "dropWhile P s"
  let ?v = "dropWhile P (rev ?u)"
  have v: "?v \<noteq> []" using assms by (simp add: strip_by_def)
  then have u: "?u \<noteq> []" by (metis dropWhile.simps(1) rev.simps(1))
  have "last (strip_by P s) = hd ?v" using v by (simp add: strip_by_def last_rev)
  moreover have "\<not> P (hd ?v)" using v by (rule hd_dropWhile)
  ultimately show "\<not> P (last (strip_by P s))" by simp
  have "hd (strip_by P s) = last ?v" using v by (simp add: strip_by_def hd_rev)
  also have "\<dots> = last (rev ?u)" using v by (rule last_dropWhile)
  also have "\<dots> = hd ?u" using u by (simp add: last_rev)
  finally have "hd (strip_by P s) = hd ?u" .
  moreover have "\<not> P (hd ?u)" using u by (rule hd_dropWhile)
  ultimately show "\<not> P (hd (strip_by P s))" by simp
qed

lemma strip_by_fixed:
  assumes "s \<noteq> []" and "\<not> P (hd s)" and "\<not> P (last s)"
  shows "strip_by P s = s"
proof -
  have a: "dropWhile P s = s" using assms(1,2) by (cases s) auto
  have "rev s \<noteq> []" and "\<not> P (hd (rev s))" using assms(1,3) by (simp_all add: hd_rev)
  then have "dropWhile P (rev s) = rev s" by (cases "rev s") auto
  with a show ?thesis by (simp add: strip_by_def)
qed

lemma strip_by_Nil: "strip_by P [] = []"
  by (simp add: strip_by_def)

lemma join_nonempty:
  assumes "ls \<noteq> []" and "\<forall>l \<in> set ls. l \<noteq> []"
  shows "join sep ls \<noteq> [] \<and> hd (join sep ls) = hd (hd ls) \<and> last (join sep ls) = last (last ls)"
  using assms
proof (induction sep ls rule: join.induct)
  case (3 sep x y ys)
  then show ?case by (auto simp: hd_append)
qed simp_all

lemma join_Nil_iff: "\<forall>l \<in> set ls. l \<noteq> [] \<Longrightarrow> join sep ls = [] \<longleftrightarrow> ls = []"
  using join_nonempty[of ls sep] by (cases ls) auto

section \<open>The Google script: lemmas\<close>

lemma first_texts_Nil: "first_texts [] = []"
  by (simp add: first_texts_def)

lemma first_texts_Cons:
  "first_texts (r # rs) =
     (case r of [] \<Rightarrow> [] | a # _ \<Rightarrow> if strip a \<noteq> [] then [strip a] else []) @ first_texts rs"
  by (simp add: first_texts_def)

lemma transcript_lines_ok:
  "\<forall>r \<in> set resp. r \<noteq> [] \<Longrightarrow> transcript_lines resp lines = Inr (lines @ first_texts resp)"
proof (induction resp arbitrary: lines)
  case Nil
  then show ?case by (simp add: first_texts_Nil)
next
  case (Cons r rs)
  then obtain a as where r: "r = a # as" by (cases r) auto
  from Cons have "\<And>ls. transcript_lines rs ls = Inr (ls @ first_texts rs)" by simp
  then show ?case by (simp add: r index_def first_texts_Cons)
qed

lemma transcript_lines_fail:
  "\<exists>r \<in> set resp. r = [] \<Longrightarrow> transcript_lines resp lines = Inl IndexError"
proof (induction resp arbitrary: lines)
  case Nil
  then show ?case by simp
next
  case (Cons r rs)
  show ?case
  proof (cases r)
    case Nil
    then show ?thesis by (simp add: index_def)
  next
    case (Cons a as)
    with Cons.prems have "\<exists>r \<in> set rs. r = []" by auto
    then have "\<And>ls. transcript_lines rs ls = Inl IndexError" using Cons.IH by blast
    then show ?thesis using Cons by (simp add: index_def)
  qed
qed

lemma first_texts_trimmed:
  "l \<in> set (first_texts resp) \<Longrightarrow> l \<noteq> [] \<and> \<not> is_space (hd l) \<and> \<not> is_space (last l)"
  by (auto simp: first_texts_def strip_def strip_by_ends split: list.splits if_splits)

lemma strip_join_first_texts:
  "strip (join sep (first_texts resp)) = join sep (first_texts resp)"
proof (cases "first_texts resp = []")
  case True
  then show ?thesis by (simp add: strip_def strip_by_Nil)
next
  case False
  let ?ls = "first_texts resp"
  have ne: "\<forall>l \<in> set ?ls. l \<noteq> []" using first_texts_trimmed by blast
  from join_nonempty[OF False ne, of sep]
  have j: "join sep ?ls \<noteq> []" "hd (join sep ?ls) = hd (hd ?ls)"
    "last (join sep ?ls) = last (last ?ls)" by simp_all
  have "hd ?ls \<in> set ?ls" "last ?ls \<in> set ?ls" using False by simp_all
  then have "\<not> is_space (hd (hd ?ls))" "\<not> is_space (last (last ?ls))"
    using first_texts_trimmed by blast+
  with j show ?thesis unfolding strip_def by (intro strip_by_fixed) simp_all
qed

lemma google_transcript_eq:
  "google_transcript resp =
     (if \<forall>r \<in> set resp. r \<noteq> [] then
        Inr (if first_texts resp = [] then no_transcript else join ''\<newline>'' (first_texts resp))
      else Inl IndexError)"
proof (cases "\<forall>r \<in> set resp. r \<noteq> []")
  case True
  have ne: "\<forall>l \<in> set (first_texts resp). l \<noteq> []" using first_texts_trimmed by blast
  show ?thesis using True
    by (simp add: google_transcript_def transcript_lines_ok strip_join_first_texts
        join_Nil_iff[OF ne])
next
  case False
  then have "\<exists>r \<in> set resp. r = []" by blast
  from transcript_lines_fail[OF this] False show ?thesis
    by (simp add: google_transcript_def)
qed


lemma google_call_long_running:
  "long_running_recognize client config audio = Inr operation \<Longrightarrow>
   google_call USE_LONG_RUNNING client config audio = operation_result operation 900"
  by (simp add: google_call_def USE_LONG_RUNNING_def)

text \<open>
  Claim C7.  The script runs on the long-running path.  Once the audio is extracted and
  the operation is started, \<^verbatim>\<open>run_google_speech\<close> waits for the operation for at most
  900 time units: an operation that takes longer, or never finishes, ends the call with
  \<^verbatim>\<open>TimeoutError\<close> and nothing is written.  An operation done within the bound, whose
  results each carry an alternative, gives the transcript that is written: the first
  alternatives of all results, each trimmed, the empty ones skipped, joined by newlines
  (and the fixed text \<^verbatim>\<open>[No transcript returned]\<close> in place of an empty transcript).
\<close>

theorem cloud_operation_wait_and_transcript:
  assumes audio: "extract_linear16_audio proc tmpdir clip SAMPLE_RATE w = (Inr wav, w1)"
    and call: "long_running_recognize client
                 \<lparr>encoding = ''LINEAR16'', sample_rate_hertz = SAMPLE_RATE,
                  language_code = LANGUAGE_CODE,
                  enable_automatic_punctuation = ENABLE_PUNCTUATION,
                  max_alternatives = 1\<rparr> wav = Inr operation"
  shows "((\<forall>d. finishes_after operation = Some d \<longrightarrow> 900 < d)
            \<longrightarrow> run_google_speech client clip proc tmpdir w = (Inl TimeoutError, w1))
       \<and> (\<forall>d resp. finishes_after operation = Some d \<and> d \<le> 900 \<and> outcome operation = Inr resp
              \<and> (\<forall>r \<in> set resp. r \<noteq> [])
            \<longrightarrow> run_google_speech client clip proc tmpdir w =
                  (Inr (), write_text (path_join RESULT_DIR_google (stem clip @ ''.txt''))
                             (if first_texts resp = [] then no_transcript
                              else join ''\<newline>'' (first_texts resp)) w1))"
proof (intro conjI impI allI)
  assume late: "\<forall>d. finishes_after operation = Some d \<longrightarrow> 900 < d"
  have "operation_result operation 900 = Inl TimeoutError"
  proof (cases "finishes_after operation")
    case None
    then show ?thesis by (simp add: operation_result_def)
  next
    case (Some d)
    with late have "900 < d" by simp
    with Some show ?thesis by (simp add: operation_result_def)
  qed
  then show "run_google_speech client clip proc tmpdir w = (Inl TimeoutError, w1)"
    using audio google_call_long_running[OF call] by (simp add: run_google_speech_def)
next
  fix d resp
  assume h: "finishes_after operation = Some d \<and> d \<le> 900 \<and> outcome operation = Inr resp
              \<and> (\<forall>r \<in> set resp. r \<noteq> [])"
  then have "operation_result operation 900 = Inr resp" by (simp add: operation_result_def)
  moreover have "google_transcript resp =
      Inr (if first_texts resp = [] then no_transcript else join ''\<newline>'' (first_texts resp))"
    using h by (simp add: google_transcript_eq)
  ultimately show "run_google_speech client clip proc tmpdir w =
                  (Inr (), write_text (path_join RESULT_DIR_google (stem clip @ ''.txt''))
                             (if first_texts resp = [] then no_transcript
                              else join ''\<newline>'' (first_texts resp)) w1)"
    using audio google_call_long_running[OF call] by (simp add: run_google_speech_def)
qed


text \<open>
  The statement at one clip: an operation taking 901 units times out; one taking 900
  units with the results \<^verbatim>\<open>" a "\<close>, blank and \<^verbatim>\<open>"b"\<close> writes the two lines \<^verbatim>\<open>a\<close>, \<^verbatim>\<open>b\<close>.
\<close>

theorem cloud_operation_wait_and_transcript_witness:
  "fst (extract_linear16_audio (\<lambda>cmd fs. (Inr (), fs(last cmd \<mapsto> ''RIFF''))) ''/tmp/t''
          ''MYR_1.mp4'' SAMPLE_RATE \<lparr>heap = [], files = (\<lambda>p. None), sent = []\<rparr>) = Inr ''RIFF''
   \<and> fst (run_google_speech
          \<lparr>long_running_recognize =
             (\<lambda>c a. Inr \<lparr>finishes_after = Some 901, outcome = Inr [[''late'']]\<rparr>),
           recognize = (\<lambda>c a. Inl RequestException)\<rparr>
          ''MYR_1.mp4'' (\<lambda>cmd fs. (Inr (), fs(last cmd \<mapsto> ''RIFF''))) ''/tmp/t''
          \<lparr>heap = [], files = (\<lambda>p. None), sent = []\<rparr>) = Inl TimeoutError
   \<and> files (snd (run_google_speech
          \<lparr>long_running_recognize =
             (\<lambda>c a. Inr \<lparr>finishes_after = Some 900,
                          outcome = Inr [['' a '', ''x''], [''  ''], [''b'']]\<rparr>),
           recognize = (\<lambda>c a. Inl RequestException)\<rparr>
          ''MYR_1.mp4'' (\<lambda>cmd fs. (Inr (), fs(last cmd \<mapsto> ''RIFF''))) ''/tmp/t''
          \<lparr>heap = [], files = (\<lambda>p. None), sent = []\<rparr>))
        (path_join RESULT_DIR_google ''MYR_1.txt'') = Some ''a\<newline>b''"
proof -
  let ?proc = "\<lambda>cmd fs. (Inr (), fs(last cmd \<mapsto> ''RIFF''))
                 :: (error + unit) \<times> (string \<Rightarrow> string option)"
  let ?w = "\<lparr>heap = [], files = (\<lambda>p. None), sent = []\<rparr>"
  let ?slow = "\<lparr>long_running_recognize =
             (\<lambda>c a. Inr \<lparr>finishes_after = Some 901, outcome = Inr [[''late'']]\<rparr>),
           recognize = (\<lambda>c a. Inl RequestException)\<rparr>"
  let ?fast = "\<lparr>long_running_recognize =
             (\<lambda>c a. Inr \<lparr>finishes_after = Some 900,
                          outcome = Inr [['' a '', ''x''], [''  ''], [''b'']]\<rparr>),
           recognize = (\<lambda>c a. Inl RequestException)\<rparr>"
  let ?e = "extract_linear16_audio ?proc ''/tmp/t'' ''MYR_1.mp4'' SAMPLE_RATE ?w"
  have a: "fst ?e = Inr ''RIFF''"
    by (simp add: extract_linear16_audio_def with_tmpdir_def subprocess_run_def read_bytes_def
          path_join_def Let_def)
  then have audio: "?e = (Inr ''RIFF'', snd ?e)" by (simp add: prod_eq_iff)
  have slow: "run_google_speech ?slow ''MYR_1.mp4'' ?proc ''/tmp/t'' ?w = (Inl TimeoutError, snd ?e)"
    using cloud_operation_wait_and_transcript[OF audio, of ?slow]
    by simp
  have st: "stem ''MYR_1.mp4'' = ''MYR_1''" by (simp add: stem_def)
  have ft: "first_texts [['' a '', ''x''], [''  ''], [''b'']] = [''a'', ''b'']"
    by (simp add: first_texts_def strip_def strip_by_def is_space_def)
  have fast: "run_google_speech ?fast ''MYR_1.mp4'' ?proc ''/tmp/t'' ?w =
      (Inr (), write_text (path_join RESULT_DIR_google ''MYR_1.txt'') ''a\<newline>b'' (snd ?e))"
    using cloud_operation_wait_and_transcript[OF audio, of ?fast]
    by (simp add: st ft)
  show ?thesis using a slow fast by (simp add: write_text_def)
qed


section \<open>The Vosk script: lemmas\<close>

lemma finish_no_text:
  assumes "\<forall>p \<in> set pieces. \<not> truthy p"
    and "text_of (fst (FinalResult rec st)) = Inr p" and "\<not> truthy p"
  shows "finish rec st pieces = Inr []"
proof -
  have "filter truthy (pieces @ [p]) = []" using assms(1,3) by simp
  then show ?thesis using assms(2)
    by (simp add: finish_def join_json_def strip_def strip_by_def)
qed

text \<open>
  Claim C3 asks every backend to give the fixed text \<^verbatim>\<open>[No transcript returned]\<close> when
  nothing is recognized.  The Google script does (see \<open>google_transcript_eq\<close>); the Vosk
  script does not: with a decoder that recognizes no text, \<^verbatim>\<open>transcribe\<close> returns the empty
  string and \<^verbatim>\<open>run_vosk\<close> writes an empty file.
\<close>

theorem vosk_silence_gives_empty_text:
  "transcribe ''/tmp/t/MYR_1.wav''
      \<lparr>AcceptWaveform = (\<lambda>st data. (True, st)),
       Result = (\<lambda>st. (JObj [(''text'', JStr [])], st)),
       FinalResult = (\<lambda>st. (JObj [(''text'', JStr [])], st))\<rparr> ()
      (\<lambda>b. Inr (2, b))
      \<lparr>heap = [], files = [''/tmp/t/MYR_1.wav'' \<mapsto> ''abcd''], sent = []\<rparr> = Inr []
   \<and> files (snd (run_vosk ''MYR_1.mp4''
      \<lparr>AcceptWaveform = (\<lambda>st data. (True, st)),
       Result = (\<lambda>st. (JObj [(''text'', JStr [])], st)),
       FinalResult = (\<lambda>st. (JObj [(''text'', JStr [])], st))\<rparr> ()
      (\<lambda>b. Inr (2, b)) (\<lambda>cmd fs. (Inr (), fs(last cmd \<mapsto> ''abcd''))) ''/tmp/t''
      \<lparr>heap = [], files = (\<lambda>p. None), sent = []\<rparr>))
        (path_join RESULT_DIR_vosk ''MYR_1.txt'') = Some []
   \<and> [] \<noteq> no_transcript"
proof -
  have c: "chunks 8000 ''abcd'' = [''abcd'']" by (simp add: chunks.simps)
  have st: "stem ''MYR_1.mp4'' = ''MYR_1''" by (simp add: stem_def)
  show ?thesis
    by (simp add: transcribe_def run_vosk_def with_tmpdir_def convert_to_wav_def
          subprocess_run_def read_bytes_def c st path_join_def text_of_def dict_get_default_def
          finish_def join_json_def strip_def strip_by_def write_text_def no_transcript_def
          FFMPEG_ARGS_def Let_def)
qed


section \<open>The Clova script: transcript extraction\<close>

lemma direct_text_None:
  "direct_text payload keys = None \<longleftrightarrow> (\<forall>k \<in> set keys. \<not> usable_text payload k)"
  by (induction keys) (auto simp: usable_text_def split: json.splits)

lemma direct_text_first:
  assumes "\<forall>k' \<in> set ks1. \<not> usable_text payload k'"
    and "dict_get payload k = JStr t" and "strip t \<noteq> []"
  shows "direct_text payload (ks1 @ k # ks2) = Some (strip t)"
  using assms by (induction ks1) (auto simp: usable_text_def split: json.splits)

lemma dumps_object_nonempty: "dumps indent level (JObj kvs) \<noteq> []"
  by simp

text \<open>
  Claim C4, as the code has it, for a response whose decoded payload is an object.  A
  key is usable when the payload holds under it a string that is not blank.  If one of
  the keys \<^verbatim>\<open>text\<close>, \<^verbatim>\<open>textData\<close>, \<^verbatim>\<open>result\<close>, \<^verbatim>\<open>transcript\<close> is usable, the result is the
  trimmed value under the first usable one, whatever \<^verbatim>\<open>segments\<close> holds.  A segment's
  text is kept when the segment is an object and the value under \<^verbatim>\<open>text\<close> is true in a
  condition.  If no key is usable and \<^verbatim>\<open>segments\<close> is a list with at least one kept text,
  and every kept text is a string, the result is the kept texts joined by newlines, and
  trimmed.  If no key is usable and \<^verbatim>\<open>segments\<close> is no list or has no kept text, the
  result is the indented dump of the payload, which is not empty.  A kept text that is
  no string is outside the statement.
\<close>

theorem extract_transcript_fallback_order:
  assumes "json_body r = Some (JObj payload)"
  shows "(\<forall>ks1 k ks2 t.
            [''text'', ''textData'', ''result'', ''transcript''] = ks1 @ k # ks2
            \<and> (\<forall>k' \<in> set ks1. \<not> usable_text payload k')
            \<and> dict_get payload k = JStr t \<and> strip t \<noteq> []
          \<longrightarrow> extract_transcript r = Inr (strip t))
       \<and> (\<forall>segments ss.
            (\<forall>k \<in> set [''text'', ''textData'', ''result'', ''transcript'']. \<not> usable_text payload k)
            \<and> dict_get payload ''segments'' = JArr segments
            \<and> strings_of (segment_lines segments) = Inr ss \<and> ss \<noteq> []
          \<longrightarrow> extract_transcript r = Inr (strip (join ''\<newline>'' ss)))
       \<and> ((\<forall>k \<in> set [''text'', ''textData'', ''result'', ''transcript'']. \<not> usable_text payload k)
            \<and> (\<forall>segments. dict_get payload ''segments'' = JArr segments
                   \<longrightarrow> segment_lines segments = [])
          \<longrightarrow> extract_transcript r = Inr (dumps (Some 2) 0 (JObj payload))
              \<and> dumps (Some 2) 0 (JObj payload) \<noteq> [])"
proof (intro conjI allI impI)
  fix ks1 k ks2 t
  assume h: "[''text'', ''textData'', ''result'', ''transcript''] = ks1 @ k # ks2
            \<and> (\<forall>k' \<in> set ks1. \<not> usable_text payload k')
            \<and> dict_get payload k = JStr t \<and> strip t \<noteq> []"
  then have "direct_text payload (ks1 @ k # ks2) = Some (strip t)"
    by (intro direct_text_first) simp_all
  with h have "direct_text payload [''text'', ''textData'', ''result'', ''transcript'']
                 = Some (strip t)" by simp
  then show "extract_transcript r = Inr (strip t)"
    using assms by (simp add: extract_transcript_def)
next
  fix segments ss
  assume h: "(\<forall>k \<in> set [''text'', ''textData'', ''result'', ''transcript'']. \<not> usable_text payload k)
            \<and> dict_get payload ''segments'' = JArr segments
            \<and> strings_of (segment_lines segments) = Inr ss \<and> ss \<noteq> []"
  then have d: "direct_text payload [''text'', ''textData'', ''result'', ''transcript''] = None"
    unfolding direct_text_None by blast
  have "segment_lines segments \<noteq> []" using h by auto
  then show "extract_transcript r = Inr (strip (join ''\<newline>'' ss))"
    using assms d h by (simp add: extract_transcript_def join_json_def)
next
  assume h: "(\<forall>k \<in> set [''text'', ''textData'', ''result'', ''transcript'']. \<not> usable_text payload k)
            \<and> (\<forall>segments. dict_get payload ''segments'' = JArr segments
                   \<longrightarrow> segment_lines segments = [])"
  then have d: "direct_text payload [''text'', ''textData'', ''result'', ''transcript''] = None"
    unfolding direct_text_None by blast
  show "extract_transcript r = Inr (dumps (Some 2) 0 (JObj payload))"
    using assms d h by (simp add: extract_transcript_def split: json.splits)
next
  show "dumps (Some 2) 0 (JObj payload) \<noteq> []" by (rule dumps_object_nonempty)
qed

text \<open>
  Claim C4 as stated fails on two payloads.  A direct field that is not empty but blank
  is passed over, and the segments are returned; a payload with only a segments list in
  which no segment has a text gives the dump, not the (empty) join.
\<close>

theorem extract_transcript_counterexample:
  "extract_transcript \<lparr>status_code = 200, reason = ''OK'', body_text = [],
       json_body = Some (JObj [(''text'', JStr '' ''),
                               (''segments'', JArr [JObj [(''text'', JStr ''a'')]])])\<rparr>
     = Inr ''a''
   \<and> strip '' '' = []
   \<and> extract_transcript \<lparr>status_code = 200, reason = ''OK'', body_text = [],
       json_body = Some (JObj [(''segments'', JArr [])])\<rparr>
     = Inr (dumps (Some 2) 0 (JObj [(''segments'', JArr [])]))
   \<and> dumps (Some 2) 0 (JObj [(''segments'', JArr [])]) \<noteq> join ''\<newline>'' []"
  by (simp add: extract_transcript_def dict_get_def dict_get_default_def strip_def strip_by_def
        is_space_def join_json_def)


text \<open>The three cases of the statement, each at a payload.\<close>

theorem extract_transcript_fallback_order_witness:
  "extract_transcript \<lparr>status_code = 200, reason = ''OK'', body_text = [],
       json_body = Some (JObj [(''text'', JStr []), (''result'', JStr '' hi ''),
                               (''segments'', JArr [JObj [(''text'', JStr ''a'')]])])\<rparr>
     = Inr ''hi''
   \<and> extract_transcript \<lparr>status_code = 200, reason = ''OK'', body_text = [],
       json_body = Some (JObj [(''segments'',
          JArr [JObj [(''text'', JStr ''a'')], JObj [(''start'', JInt 1)],
                JObj [(''text'', JStr ''b '')]])])\<rparr>
     = Inr ''a\<newline>b''
   \<and> extract_transcript \<lparr>status_code = 200, reason = ''OK'', body_text = [],
       json_body = Some (JObj [(''status'', JInt 1)])\<rparr>
     = Inr (dumps (Some 2) 0 (JObj [(''status'', JInt 1)]))
   \<and> dumps (Some 2) 0 (JObj [(''status'', JInt 1)]) \<noteq> []"
proof -
  let ?p1 = "[(''text'', JStr []), (''result'', JStr '' hi ''),
              (''segments'', JArr [JObj [(''text'', JStr ''a'')]])]"
  let ?r1 = "\<lparr>status_code = 200, reason = ''OK'', body_text = [], json_body = Some (JObj ?p1)\<rparr>"
  let ?segs = "[JObj [(''text'', JStr ''a'')], JObj [(''start'', JInt 1)],
                JObj [(''text'', JStr ''b '')]]"
  let ?p2 = "[(''segments'', JArr ?segs)]"
  let ?r2 = "\<lparr>status_code = 200, reason = ''OK'', body_text = [], json_body = Some (JObj ?p2)\<rparr>"
  let ?p3 = "[(''status'', JInt 1)]"
  let ?r3 = "\<lparr>status_code = 200, reason = ''OK'', body_text = [], json_body = Some (JObj ?p3)\<rparr>"
  have s_hi: "strip '' hi '' = ''hi''" by (simp add: strip_def strip_by_def is_space_def)
  have s_e: "strip [] = []" by (simp add: strip_def strip_by_def)
  have h1: "[''text'', ''textData'', ''result'', ''transcript''] = [''text'', ''textData''] @ ''result'' # [''transcript'']
            \<and> (\<forall>k' \<in> set [''text'', ''textData'']. \<not> usable_text ?p1 k')
            \<and> dict_get ?p1 ''result'' = JStr '' hi '' \<and> strip '' hi '' \<noteq> []"
    by (simp add: usable_text_def dict_get_def s_hi s_e)
  have a: "extract_transcript ?r1 = Inr ''hi''"
    using extract_transcript_fallback_order[of ?r1 ?p1] h1 s_hi by (metis response.select_convs(4))
  have sl: "strings_of (segment_lines ?segs) = Inr [''a'', ''b '']"
    by (simp add: dict_get_def dict_get_default_def)
  have h2: "(\<forall>k \<in> set [''text'', ''textData'', ''result'', ''transcript'']. \<not> usable_text ?p2 k)
            \<and> dict_get ?p2 ''segments'' = JArr ?segs
            \<and> strings_of (segment_lines ?segs) = Inr [''a'', ''b ''] \<and> [''a'', ''b ''] \<noteq> []"
    using sl by (simp add: usable_text_def dict_get_def)
  have j: "strip (join ''\<newline>'' [''a'', ''b '']) = ''a\<newline>b''"
    by (simp add: strip_def strip_by_def is_space_def)
  have b: "extract_transcript ?r2 = Inr ''a\<newline>b''"
    using extract_transcript_fallback_order[of ?r2 ?p2] h2 j by (metis response.select_convs(4))
  have h3: "(\<forall>k \<in> set [''text'', ''textData'', ''result'', ''transcript'']. \<not> usable_text ?p3 k)
            \<and> (\<forall>segments. dict_get ?p3 ''segments'' = JArr segments \<longrightarrow> segment_lines segments = [])"
    by (simp add: usable_text_def dict_get_def)
  have c: "extract_transcript ?r3 = Inr (dumps (Some 2) 0 (JObj ?p3))
              \<and> dumps (Some 2) 0 (JObj ?p3) \<noteq> []"
    using extract_transcript_fallback_order[of ?r3 ?p3] h3 by (metis response.select_convs(4))
  from a b c show ?thesis by blast
qed


section \<open>The Clova script: the request\<close>

lemma dict_set_last:
  assumes "heap w = h @ [d]"
  shows "heap (dict_set (length h) k v w) = h @ [AList.update k v d]"
    and "files (dict_set a k v w) = files w" and "sent (dict_set a k v w) = sent w"
  using assms by (simp_all add: dict_set_def)

lemma set_default_last:
  assumes "heap w = h @ [d]"
  shows "heap (set_default (length h) k v w) = h @ [put_default k v d]"
    and "files (set_default a k v w) = files w" and "sent (set_default a k v w) = sent w"
  using assms by (simp_all add: set_default_def put_default_def dict_set_def)

lemma set_if_given_last:
  assumes "heap w = h @ [d]"
  shows "heap (set_if_given (length h) k x w) = h @ [put_if_given k x d]"
    and "files (set_if_given a k x w) = files w" and "sent (set_if_given a k x w) = sent w"
  using assms by (simp_all add: set_if_given_def put_if_given_def dict_set_def split: option.splits)

lemma set_if_truthy_last:
  assumes "heap w = h @ [d]"
  shows "heap (set_if_truthy (length h) k x w) = h @ [put_if_truthy k x d]"
    and "files (set_if_truthy a k x w) = files w" and "sent (set_if_truthy a k x w) = sent w"
  using assms by (simp_all add: set_if_truthy_def put_if_truthy_def dict_set_def split: option.splits)

lemma stores_keep_files:
  "files (dict_set a k v w) = files w" "sent (dict_set a k v w) = sent w"
  "files (set_default a k v w) = files w" "sent (set_default a k v w) = sent w"
  "files (set_if_given a k x w) = files w" "sent (set_if_given a k x w) = sent w"
  "files (set_if_truthy a k x w) = files w" "sent (set_if_truthy a k x w) = sent w"
  by (simp_all add: dict_set_def set_default_def set_if_given_def set_if_truthy_def
        split: option.splits)

lemma build_request_body_result:
  "\<exists>w'. build_request_body self completion callback userdata forbiddens boostings
           word_alignment full_text diarization sed w = (length (heap w), w')
       \<and> heap w' = heap w @ [request_body_of (heap w ! default_params self) completion callback
                                 userdata forbiddens boostings word_alignment full_text
                                 diarization sed]
       \<and> files w' = files w \<and> sent w' = sent w"
proof -
  let ?h = "heap w"
  let ?a = "length ?h"
  let ?d0 = "dict_merge [(''language'', JStr LANGUAGE), (''completion'', JStr completion)]
               (heap w ! default_params self)"
  define w0 where "w0 = w\<lparr>heap := ?h @ [?d0]\<rparr>"
  define w1 where "w1 = set_default ?a ''wordAlignment'' (JBool word_alignment) w0"
  define w2 where "w2 = set_default ?a ''fullText'' (JBool full_text) w1"
  define w3 where "w3 = set_if_given ?a ''callback'' (map_option JStr callback) w2"
  define w4 where "w4 = set_if_given ?a ''userdata'' (map_option JStr userdata) w3"
  define w5 where "w5 = set_if_truthy ?a ''forbiddens''
                     (map_option (\<lambda>fs. JArr (map JStr fs)) forbiddens) w4"
  define w6 where "w6 = set_if_truthy ?a ''boostings''
                     (map_option (\<lambda>bs. JArr (map JObj bs)) boostings) w5"
  define w7 where "w7 = set_if_given ?a ''diarization'' (map_option JObj diarization) w6"
  define w8 where "w8 = set_if_given ?a ''sed'' (map_option JObj sed) w7"
  have res: "build_request_body self completion callback userdata forbiddens boostings
           word_alignment full_text diarization sed w = (?a, w8)"
    by (simp add: build_request_body_def alloc_def Let_def w0_def w1_def w2_def w3_def w4_def
          w5_def w6_def w7_def w8_def)
  have h0: "heap w0 = ?h @ [?d0]" and f0: "files w0 = files w" "sent w0 = sent w"
    by (simp_all add: w0_def)
  note h1 = set_default_last(1)[OF h0, of "''wordAlignment''" "JBool word_alignment", folded w1_def]
  note h2 = set_default_last(1)[OF h1, of "''fullText''" "JBool full_text", folded w2_def]
  note h3 = set_if_given_last(1)[OF h2, of "''callback''" "map_option JStr callback", folded w3_def]
  note h4 = set_if_given_last(1)[OF h3, of "''userdata''" "map_option JStr userdata", folded w4_def]
  note h5 = set_if_truthy_last(1)[OF h4, of "''forbiddens''"
              "map_option (\<lambda>fs. JArr (map JStr fs)) forbiddens", folded w5_def]
  note h6 = set_if_truthy_last(1)[OF h5, of "''boostings''"
              "map_option (\<lambda>bs. JArr (map JObj bs)) boostings", folded w6_def]
  note h7 = set_if_given_last(1)[OF h6, of "''diarization''" "map_option JObj diarization",
              folded w7_def]
  note h8 = set_if_given_last(1)[OF h7, of "''sed''" "map_option JObj sed", folded w8_def]
  have "heap w8 = ?h @ [request_body_of (heap w ! default_params self) completion callback
                                 userdata forbiddens boostings word_alignment full_text
                                 diarization sed]"
    using h8 by (simp add: request_body_of_def)
  moreover have "files w8 = files w \<and> sent w8 = sent w"
    by (simp add: w8_def w7_def w6_def w5_def w4_def w3_def w2_def w1_def f0 stores_keep_files)
  ultimately show ?thesis using res by blast
qed


lemma req_upload_result:
  "\<exists>w'. req_upload self file completion callback userdata forbiddens boostings
           word_alignment full_text diarization sed server w =
         (case read_bytes file w of
            Inl e \<Rightarrow> Inl e
          | Inr m \<Rightarrow> server (sent w)
              (upload_request self m
                 (request_body_of (heap w ! default_params self) completion callback userdata
                    forbiddens boostings word_alignment full_text diarization sed)), w')
       \<and> heap w' = heap w @ [request_body_of (heap w ! default_params self) completion callback
                                 userdata forbiddens boostings word_alignment full_text
                                 diarization sed]
       \<and> files w' = files w
       \<and> sent w' = (case read_bytes file w of
            Inl e \<Rightarrow> sent w
          | Inr m \<Rightarrow> sent w @ [upload_request self m
                 (request_body_of (heap w ! default_params self) completion callback userdata
                    forbiddens boostings word_alignment full_text diarization sed)])"
proof -
  obtain w1 where b: "build_request_body self completion callback userdata forbiddens boostings
           word_alignment full_text diarization sed w = (length (heap w), w1)"
    and h: "heap w1 = heap w @ [request_body_of (heap w ! default_params self) completion callback
                                 userdata forbiddens boostings word_alignment full_text
                                 diarization sed]"
    and f: "files w1 = files w" "sent w1 = sent w"
    using build_request_body_result by blast
  have r: "read_bytes file w1 = read_bytes file w" by (simp add: read_bytes_def f)
  show ?thesis
    by (cases "read_bytes file w")
       (simp_all add: req_upload_def b r h f upload_request_def Let_def)
qed

section \<open>The Clova script: a rejected request\<close>

lemma format_error_cases:
  "format_error r =
     (case json_body r of
        Some payload \<Rightarrow> dumps None 0 payload
      | None \<Rightarrow> if strip (body_text r) \<noteq> [] then strip (body_text r) else reason r)"
  by (simp add: format_error_def)

text \<open>
  Claim C5.  When the upload is answered with a status for which \<^verbatim>\<open>response.ok\<close> is false
  (400 to 599), \<^verbatim>\<open>run_clova\<close> ends with \<^verbatim>\<open>SystemExit\<close>; the message names the clip, the
  status and the reason, and carries the decoded body, dumped again, when the body
  decodes, else the trimmed body text when that is not empty, else the reason phrase.
  Exactly one request was posted, the one answered so, and no file was written.
\<close>

theorem rejected_request_is_fatal:
  assumes "fst (req_upload client (path_join VOICE_DIR clip) CLOVA_COMPLETION None None None None
                  True True None None server w) = Inr r"
    and "\<not> ok r"
  shows "\<exists>w' req. run_clova client clip server w =
           (Inl (SystemExit (''Clova Speech request failed for '' @ clip @ '' (''
                   @ show_int (status_code r) @ '' '' @ reason r @ ''): ''
                   @ (case json_body r of
                        Some payload \<Rightarrow> dumps None 0 payload
                      | None \<Rightarrow> if strip (body_text r) \<noteq> [] then strip (body_text r)
                                else reason r))), w')
         \<and> sent w' = sent w @ [req] \<and> server (sent w) req = Inr r \<and> files w' = files w"
proof -
  let ?call = "req_upload client (path_join VOICE_DIR clip) CLOVA_COMPLETION None None None None
                  True True None None server w"
  let ?body = "request_body_of (heap w ! default_params client) CLOVA_COMPLETION None None None
                 None True True None None"
  obtain w' where c: "?call =
         (case read_bytes (path_join VOICE_DIR clip) w of
            Inl e \<Rightarrow> Inl e
          | Inr m \<Rightarrow> server (sent w) (upload_request client m ?body), w')"
    and f: "files w' = files w"
    and s: "sent w' = (case read_bytes (path_join VOICE_DIR clip) w of
            Inl e \<Rightarrow> sent w
          | Inr m \<Rightarrow> sent w @ [upload_request client m ?body])"
    using req_upload_result by blast
  from assms(1) c obtain m where m: "read_bytes (path_join VOICE_DIR clip) w = Inr m"
    by (cases "read_bytes (path_join VOICE_DIR clip) w") auto
  from assms(1) c m have sr: "server (sent w) (upload_request client m ?body) = Inr r" by simp
  have "run_clova client clip server w =
           (Inl (SystemExit (''Clova Speech request failed for '' @ clip @ '' (''
                   @ show_int (status_code r) @ '' '' @ reason r @ ''): ''
                   @ format_error r)), w')"
    using c m sr assms(2) by (simp add: run_clova_def)
  then show ?thesis using s m sr f unfolding format_error_cases by auto
qed


text \<open>The statement at a server that answers 500 with a body that is no JSON.\<close>

theorem rejected_request_is_fatal_witness:
  "fst (req_upload \<lparr>invoke_url = ''https://host'', secret = ''key'', default_params = 0\<rparr>
          (path_join VOICE_DIR ''MYR_1.mp4'') CLOVA_COMPLETION None None None None
          True True None None
          (\<lambda>reqs req. Inr \<lparr>status_code = 500, reason = ''Internal Server Error'',
                           body_text = '' quota '', json_body = None\<rparr>)
          \<lparr>heap = [[]], files = [path_join VOICE_DIR ''MYR_1.mp4'' \<mapsto> ''bytes''], sent = []\<rparr>)
     = Inr \<lparr>status_code = 500, reason = ''Internal Server Error'',
            body_text = '' quota '', json_body = None\<rparr>
   \<and> \<not> ok \<lparr>status_code = 500, reason = ''Internal Server Error'',
            body_text = '' quota '', json_body = None\<rparr>
   \<and> fst (run_clova \<lparr>invoke_url = ''https://host'', secret = ''key'', default_params = 0\<rparr>
          ''MYR_1.mp4''
          (\<lambda>reqs req. Inr \<lparr>status_code = 500, reason = ''Internal Server Error'',
                           body_text = '' quota '', json_body = None\<rparr>)
          \<lparr>heap = [[]], files = [path_join VOICE_DIR ''MYR_1.mp4'' \<mapsto> ''bytes''], sent = []\<rparr>)
     = Inl (SystemExit
         ''Clova Speech request failed for MYR_1.mp4 (500 Internal Server Error): quota'')
   \<and> length (sent (snd (run_clova
          \<lparr>invoke_url = ''https://host'', secret = ''key'', default_params = 0\<rparr>
          ''MYR_1.mp4''
          (\<lambda>reqs req. Inr \<lparr>status_code = 500, reason = ''Internal Server Error'',
                           body_text = '' quota '', json_body = None\<rparr>)
          \<lparr>heap = [[]], files = [path_join VOICE_DIR ''MYR_1.mp4'' \<mapsto> ''bytes''],
           sent = []\<rparr>))) = 1"
proof -
  let ?c = "\<lparr>invoke_url = ''https://host'', secret = ''key'', default_params = 0\<rparr>"
  let ?r = "\<lparr>status_code = 500, reason = ''Internal Server Error'',
            body_text = '' quota '', json_body = None\<rparr>"
  let ?server = "\<lambda>reqs req. Inr ?r :: error + response"
  let ?w = "\<lparr>heap = [[]], files = [path_join VOICE_DIR ''MYR_1.mp4'' \<mapsto> ''bytes''], sent = []\<rparr>"
  have rb: "read_bytes (path_join VOICE_DIR ''MYR_1.mp4'') ?w = Inr ''bytes''"
    by (simp add: read_bytes_def)
  have h1: "fst (req_upload ?c (path_join VOICE_DIR ''MYR_1.mp4'') CLOVA_COMPLETION None None
                   None None True True None None ?server ?w) = Inr ?r"
    using req_upload_result[of ?c "path_join VOICE_DIR ''MYR_1.mp4''" CLOVA_COMPLETION None None
            None None True True None None ?server ?w]
    by (auto simp: rb)
  have h2: "\<not> ok ?r" by (simp add: ok_def)
  have n: "show_int 500 = ''500''"
    by code_simp
  have q: "strip '' quota '' = ''quota''"
    by (simp add: strip_def strip_by_def is_space_def)
  from rejected_request_is_fatal[OF h1 h2] obtain w' req where
    "run_clova ?c ''MYR_1.mp4'' ?server ?w =
       (Inl (SystemExit (''Clova Speech request failed for '' @ ''MYR_1.mp4'' @ '' (''
                   @ show_int (status_code ?r) @ '' '' @ reason ?r @ ''): ''
                   @ (case json_body ?r of
                        Some payload \<Rightarrow> dumps None 0 payload
                      | None \<Rightarrow> if strip (body_text ?r) \<noteq> [] then strip (body_text ?r)
                                else reason ?r))), w')"
    and "sent w' = sent ?w @ [req]"
    by blast
  then show ?thesis using h1 h2 by (simp add: n q)
qed


section \<open>The Clova script: the parameter block\<close>

lemma map_of_dict_merge:
  "distinct (map fst e) \<Longrightarrow> map_of (dict_merge d e) = map_of d ++ map_of e"
proof (induction e arbitrary: d)
  case Nil
  then show ?case by (simp add: dict_merge_def)
next
  case (Cons p e)
  obtain k v where p: "p = (k, v)" by (cases p)
  from Cons.prems p have k: "k \<notin> dom (map_of e)" and d: "distinct (map fst e)"
    by (auto simp: dom_map_of_conv_image_fst)
  have "map_of (dict_merge d (p # e)) = map_of (dict_merge (AList.update k v d) e)"
    by (simp add: dict_merge_def p)
  also have "\<dots> = map_of (AList.update k v d) ++ map_of e"
    using Cons.IH[OF d] .
  also have "\<dots> = (map_of d)(k \<mapsto> v) ++ map_of e" by (simp add: update_conv')
  also have "\<dots> = (map_of d ++ map_of e)(k \<mapsto> v)" using k by (rule map_add_upd_left)
  also have "\<dots> = map_of d ++ map_of (p # e)" by (simp add: p)
  finally show ?case .
qed

lemma map_of_put_default: "map_of (put_default k v d) = [k \<mapsto> v] ++ map_of d"
proof (cases "dict_has d k")
  case True
  then have "k \<in> dom (map_of d)" by (simp add: dict_has_def dom_map_of_conv_image_fst)
  then have "[k \<mapsto> v] ++ map_of d = map_of d"
    by (intro ext) (auto simp: map_add_def split: option.splits)
  with True show ?thesis by (simp add: put_default_def)
next
  case False
  then have "k \<notin> dom (map_of d)" by (simp add: dict_has_def dom_map_of_conv_image_fst)
  then have "[k \<mapsto> v] ++ map_of d = (map_of d)(k \<mapsto> v)"
    by (intro ext) (auto simp: map_add_def split: option.splits)
  with False show ?thesis by (simp add: put_default_def update_conv')
qed

lemma request_body_of_plain:
  assumes "distinct (map fst options)"
  shows "map_of (request_body_of options completion None None None None
                   word_alignment full_text None None) =
         [''language'' \<mapsto> JStr LANGUAGE, ''completion'' \<mapsto> JStr completion,
          ''wordAlignment'' \<mapsto> JBool word_alignment, ''fullText'' \<mapsto> JBool full_text]
         ++ map_of options"
proof -
  have "map_of (request_body_of options completion None None None None
                   word_alignment full_text None None) =
        [''fullText'' \<mapsto> JBool full_text] ++ ([''wordAlignment'' \<mapsto> JBool word_alignment]
          ++ (map_of [(''language'', JStr LANGUAGE), (''completion'', JStr completion)]
                ++ map_of options))"
    by (simp add: request_body_of_def put_if_given_def put_if_truthy_def map_of_put_default
          map_of_dict_merge[OF assms])
  also have "\<dots> = ([''fullText'' \<mapsto> JBool full_text] ++ [''wordAlignment'' \<mapsto> JBool word_alignment]
          ++ map_of [(''language'', JStr LANGUAGE), (''completion'', JStr completion)])
          ++ map_of options"
    by (simp only: map_add_assoc)
  also have "[''fullText'' \<mapsto> JBool full_text] ++ [''wordAlignment'' \<mapsto> JBool word_alignment]
          ++ map_of [(''language'', JStr LANGUAGE), (''completion'', JStr completion)] =
        [''language'' \<mapsto> JStr LANGUAGE, ''completion'' \<mapsto> JStr completion,
          ''wordAlignment'' \<mapsto> JBool word_alignment, ''fullText'' \<mapsto> JBool full_text]"
    by (intro ext) (simp add: map_add_def)
  finally show ?thesis .
qed

text \<open>
  Claim C6.  For options with distinct keys and a readable clip, the call that
  \<^verbatim>\<open>run_clova\<close> makes (no optional argument given) posts one request whose parameter
  block is the dump of a dictionary that maps like the defaults \<^verbatim>\<open>language\<close>,
  \<^verbatim>\<open>completion\<close>, \<^verbatim>\<open>wordAlignment\<close>, \<^verbatim>\<open>fullText\<close> overridden by the options: a key the
  caller supplies wins on every conflict, and \<^verbatim>\<open>wordAlignment\<close> and \<^verbatim>\<open>fullText\<close> are filled
  in only when the options lack them.  The base holds \<^verbatim>\<open>language\<close> and \<^verbatim>\<open>completion\<close>
  only, so it never sets one of the two protected keys before the options do.
\<close>

theorem request_parameters_merge:
  assumes "distinct (map fst (heap w ! default_params self))"
    and "read_bytes file w = Inr m"
  shows "\<exists>body. sent (snd (req_upload self file completion None None None None
                              word_alignment full_text None None server w))
                 = sent w @ [upload_request self m body]
       \<and> params (upload_request self m body) = dumps None 0 (JObj body)
       \<and> map_of body =
           [''language'' \<mapsto> JStr LANGUAGE, ''completion'' \<mapsto> JStr completion,
            ''wordAlignment'' \<mapsto> JBool word_alignment, ''fullText'' \<mapsto> JBool full_text]
           ++ map_of (heap w ! default_params self)"
proof -
  let ?body = "request_body_of (heap w ! default_params self) completion None None None None
                 word_alignment full_text None None"
  from req_upload_result[of self "file" completion None None None None word_alignment full_text
         None None server w] assms(2)
  have "sent (snd (req_upload self file completion None None None None
                              word_alignment full_text None None server w))
                 = sent w @ [upload_request self m ?body]"
    by auto
  moreover have "params (upload_request self m ?body) = dumps None 0 (JObj ?body)"
    by (simp add: upload_request_def)
  ultimately show ?thesis using request_body_of_plain[OF assms(1)] by blast
qed


text \<open>
  The statement at options that set \<^verbatim>\<open>wordAlignment\<close> to false and \<^verbatim>\<open>language\<close> to
  \<^verbatim>\<open>en-US\<close>: both survive, and \<^verbatim>\<open>fullText\<close> is filled in.
\<close>

theorem request_parameters_merge_witness:
  "distinct (map fst [(''wordAlignment'', JBool False), (''language'', JStr ''en-US'')])
   \<and> read_bytes ''clip''
         \<lparr>heap = [[(''wordAlignment'', JBool False), (''language'', JStr ''en-US'')]],
          files = [''clip'' \<mapsto> ''bytes''], sent = []\<rparr> = Inr ''bytes''
   \<and> (\<exists>body. sent (snd (req_upload
            \<lparr>invoke_url = ''https://host'', secret = ''key'', default_params = 0\<rparr>
            ''clip'' ''sync'' None None None None True True None None
            (\<lambda>reqs req. Inl RequestException)
            \<lparr>heap = [[(''wordAlignment'', JBool False), (''language'', JStr ''en-US'')]],
             files = [''clip'' \<mapsto> ''bytes''], sent = []\<rparr>))
          = [upload_request \<lparr>invoke_url = ''https://host'', secret = ''key'', default_params = 0\<rparr>
               ''bytes'' body]
        \<and> map_of body ''wordAlignment'' = Some (JBool False)
        \<and> map_of body ''fullText'' = Some (JBool True)
        \<and> map_of body ''language'' = Some (JStr ''en-US'')
        \<and> map_of body ''completion'' = Some (JStr ''sync''))"
proof -
  let ?opts = "[(''wordAlignment'', JBool False), (''language'', JStr ''en-US'')]"
  let ?w = "\<lparr>heap = [?opts], files = [''clip'' \<mapsto> ''bytes''], sent = []\<rparr>"
  let ?c = "\<lparr>invoke_url = ''https://host'', secret = ''key'', default_params = 0\<rparr>"
  have d: "distinct (map fst (heap ?w ! default_params ?c))" by simp
  have r: "read_bytes ''clip'' ?w = Inr ''bytes''" by (simp add: read_bytes_def)
  from request_parameters_merge[OF d r, of "''sync''" True True "\<lambda>reqs req. Inl RequestException"]
  obtain body where
    s: "sent (snd (req_upload ?c ''clip'' ''sync'' None None None None True True None None
                     (\<lambda>reqs req. Inl RequestException) ?w))
          = sent ?w @ [upload_request ?c ''bytes'' body]"
    and m: "map_of body =
           [''language'' \<mapsto> JStr LANGUAGE, ''completion'' \<mapsto> JStr ''sync'',
            ''wordAlignment'' \<mapsto> JBool True, ''fullText'' \<mapsto> JBool True]
           ++ map_of (heap ?w ! default_params ?c)"
    by blast
  have "map_of body ''wordAlignment'' = Some (JBool False)"
    "map_of body ''fullText'' = Some (JBool True)"
    "map_of body ''language'' = Some (JStr ''en-US'')"
    "map_of body ''completion'' = Some (JStr ''sync'')"
    unfolding m by (simp_all add: map_add_def)
  with s d r show ?thesis by auto
qed

section \<open>The Clova script: the client's state\<close>

lemma req_upload_heap:
  "heap (snd (req_upload self file completion callback userdata forbiddens boostings
                word_alignment full_text diarization sed server w)) =
     heap w @ [request_body_of (heap w ! default_params self) completion callback
                 userdata forbiddens boostings word_alignment full_text diarization sed]"
  and req_upload_files:
  "files (snd (req_upload self file completion callback userdata forbiddens boostings
                word_alignment full_text diarization sed server w)) = files w"
  using req_upload_result[of self "file" completion callback userdata forbiddens boostings
          word_alignment full_text diarization sed server w]
  by auto

lemma uploads_files: "files (uploads self calls server w) = files w"
proof (induction calls arbitrary: w)
  case Nil
  show ?case by simp
next
  case (Cons c calls)
  obtain f co cb ud fb bs wa ft di se where c: "c = (f, co, cb, ud, fb, bs, wa, ft, di, se)"
    by (metis surj_pair)
  show ?case by (simp add: c Cons.IH req_upload_files)
qed

lemma uploads_heap: "\<exists>hs. heap (uploads self calls server w) = heap w @ hs"
proof (induction calls arbitrary: w)
  case Nil
  show ?case by simp
next
  case (Cons c calls)
  obtain f co cb ud fb bs wa ft di se where c: "c = (f, co, cb, ud, fb, bs, wa, ft, di, se)"
    by (metis surj_pair)
  let ?w1 = "snd (req_upload self f co cb ud fb bs wa ft di se server w)"
  from Cons.IH[of ?w1] obtain hs where "heap (uploads self calls server ?w1) = heap ?w1 @ hs"
    by blast
  then have "heap (uploads self (c # calls) server w) =
      heap w @ (request_body_of (heap w ! default_params self) co cb ud fb bs wa ft di se # hs)"
    by (simp add: c req_upload_heap)
  then show ?case by blast
qed

lemma uploads_keep:
  assumes "a < length (heap w)"
  shows "heap (uploads self calls server w) ! a = heap w ! a"
proof -
  obtain hs where "heap (uploads self calls server w) = heap w @ hs"
    using uploads_heap by blast
  with assms show ?thesis by (simp add: nth_append)
qed

lemma new_client_copy:
  assumes "a < length (heap w)"
  shows "\<exists>c w'. new_client iurl sec (Some a) w = (c, w')
       \<and> invoke_url c = iurl \<and> secret c = sec
       \<and> default_params c = length (heap w)
       \<and> heap w' = heap w @ [heap w ! a]"
  using assms by (auto simp: new_client_def alloc_def Let_def)

text \<open>
  Claim C10.  The client object is a value the call does not assign to; what it refers
  to is its dictionary.  For a client whose \<open>default_params\<close> is a live reference: a call
  of \<^verbatim>\<open>req_upload\<close>, with any arguments, leaves every dictionary that existed before the
  call as it was, the client's among them (the request body is a new object); the
  request posted for a readable clip is the same after any run of other calls on the
  client as before it; and the constructor, given a reference to the caller's
  dictionary, stores a reference to a new object with the same items, which a later
  store into the caller's dictionary does not change.
\<close>

theorem req_upload_keeps_client_state:
  assumes "default_params self < length (heap w)"
  shows "(\<forall>a < length (heap w).
            heap (snd (req_upload self file completion callback userdata forbiddens boostings
                         word_alignment full_text diarization sed server w)) ! a = heap w ! a)
       \<and> (read_bytes file w = Inr m \<longrightarrow>
            last (sent (snd (req_upload self file completion callback userdata forbiddens boostings
                         word_alignment full_text diarization sed server
                         (uploads self calls server w))))
            = last (sent (snd (req_upload self file completion callback userdata forbiddens
                         boostings word_alignment full_text diarization sed server w))))
       \<and> (\<forall>a < length (heap w). \<exists>c w'. new_client iurl sec (Some a) w = (c, w')
            \<and> default_params c \<noteq> a \<and> heap w' ! default_params c = heap w ! a
            \<and> (\<forall>k v. heap (dict_set a k v w') ! default_params c = heap w ! a))"
proof (intro conjI allI impI)
  fix a assume "a < length (heap w)"
  then show "heap (snd (req_upload self file completion callback userdata forbiddens boostings
                         word_alignment full_text diarization sed server w)) ! a = heap w ! a"
    by (simp add: req_upload_heap nth_append)
next
  assume r: "read_bytes file w = Inr m"
  let ?w2 = "uploads self calls server w"
  have r2: "read_bytes file ?w2 = Inr m" using r by (simp add: read_bytes_def uploads_files)
  have o: "heap ?w2 ! default_params self = heap w ! default_params self"
    using assms by (rule uploads_keep)
  let ?req = "upload_request self m
                (request_body_of (heap w ! default_params self) completion callback userdata
                   forbiddens boostings word_alignment full_text diarization sed)"
  have "sent (snd (req_upload self file completion callback userdata forbiddens boostings
                     word_alignment full_text diarization sed server ?w2)) = sent ?w2 @ [?req]"
    using req_upload_result[of self "file" completion callback userdata forbiddens boostings
            word_alignment full_text diarization sed server ?w2] r2 o
    by auto
  moreover have "sent (snd (req_upload self file completion callback userdata forbiddens boostings
                     word_alignment full_text diarization sed server w)) = sent w @ [?req]"
    using req_upload_result[of self "file" completion callback userdata forbiddens boostings
            word_alignment full_text diarization sed server w] r
    by auto
  ultimately show "last (sent (snd (req_upload self file completion callback userdata forbiddens
                         boostings word_alignment full_text diarization sed server ?w2)))
            = last (sent (snd (req_upload self file completion callback userdata forbiddens
                         boostings word_alignment full_text diarization sed server w)))"
    by simp
next
  fix a assume a: "a < length (heap w)"
  from new_client_copy[OF a, of iurl sec] obtain c w' where
    n: "new_client iurl sec (Some a) w = (c, w')" and
    d: "default_params c = length (heap w)" and h: "heap w' = heap w @ [heap w ! a]"
    by blast
  have "default_params c \<noteq> a" using a d by simp
  moreover have "heap w' ! default_params c = heap w ! a" by (simp add: d h)
  moreover have "\<forall>k v. heap (dict_set a k v w') ! default_params c = heap w ! a"
    using a by (simp add: dict_set_def d h)
  ultimately show "\<exists>c w'. new_client iurl sec (Some a) w = (c, w')
            \<and> default_params c \<noteq> a \<and> heap w' ! default_params c = heap w ! a
            \<and> (\<forall>k v. heap (dict_set a k v w') ! default_params c = heap w ! a)"
    using n by blast
qed


text \<open>The statement at a client with one option, with one other call in between.\<close>

theorem req_upload_keeps_client_state_witness:
  "default_params \<lparr>invoke_url = ''https://host'', secret = ''key'', default_params = 0\<rparr>
     < length (heap \<lparr>heap = [[(''fullText'', JBool False)]],
                     files = [''clip'' \<mapsto> ''bytes''], sent = []\<rparr>)
   \<and> read_bytes ''clip'' \<lparr>heap = [[(''fullText'', JBool False)]],
                           files = [''clip'' \<mapsto> ''bytes''], sent = []\<rparr> = Inr ''bytes''
   \<and> heap (snd (req_upload \<lparr>invoke_url = ''https://host'', secret = ''key'', default_params = 0\<rparr>
                   ''clip'' ''sync'' None None None None True True None None
                   (\<lambda>reqs req. Inl RequestException)
                   \<lparr>heap = [[(''fullText'', JBool False)]],
                    files = [''clip'' \<mapsto> ''bytes''], sent = []\<rparr>)) ! 0
       = [(''fullText'', JBool False)]
   \<and> last (sent (snd (req_upload
                   \<lparr>invoke_url = ''https://host'', secret = ''key'', default_params = 0\<rparr>
                   ''clip'' ''sync'' None None None None True True None None
                   (\<lambda>reqs req. Inl RequestException)
                   (uploads \<lparr>invoke_url = ''https://host'', secret = ''key'', default_params = 0\<rparr>
                      [(''clip'', ''async'', Some ''cb'', None, None, None, False, False, None, None)]
                      (\<lambda>reqs req. Inl RequestException)
                      \<lparr>heap = [[(''fullText'', JBool False)]],
                       files = [''clip'' \<mapsto> ''bytes''], sent = []\<rparr>))))
       = last (sent (snd (req_upload
                   \<lparr>invoke_url = ''https://host'', secret = ''key'', default_params = 0\<rparr>
                   ''clip'' ''sync'' None None None None True True None None
                   (\<lambda>reqs req. Inl RequestException)
                   \<lparr>heap = [[(''fullText'', JBool False)]],
                    files = [''clip'' \<mapsto> ''bytes''], sent = []\<rparr>)))"
proof -
  let ?c = "\<lparr>invoke_url = ''https://host'', secret = ''key'', default_params = 0\<rparr>"
  let ?w = "\<lparr>heap = [[(''fullText'', JBool False)]], files = [''clip'' \<mapsto> ''bytes''], sent = []\<rparr>"
  have h: "default_params ?c < length (heap ?w)" by simp
  have r: "read_bytes ''clip'' ?w = Inr ''bytes''" by (simp add: read_bytes_def)
  note t = req_upload_keeps_client_state[OF h, where ?file = "''clip''" and completion = "''sync''"
      and callback = None and userdata = None and forbiddens = None and boostings = None
      and word_alignment = True and full_text = True and diarization = None and sed = None
      and server = "\<lambda>reqs req. Inl RequestException" and m = "''bytes''"
      and calls = "[(''clip'', ''async'', Some ''cb'', None, None, None, False, False, None, None)]"]
  from t have "heap (snd (req_upload ?c ''clip'' ''sync'' None None None None True True None None
                   (\<lambda>reqs req. Inl RequestException) ?w)) ! 0 = heap ?w ! 0"
    by simp
  moreover from t r have "last (sent (snd (req_upload ?c ''clip'' ''sync'' None None None None
                   True True None None (\<lambda>reqs req. Inl RequestException)
                   (uploads ?c
                      [(''clip'', ''async'', Some ''cb'', None, None, None, False, False, None, None)]
                      (\<lambda>reqs req. Inl RequestException) ?w))))
       = last (sent (snd (req_upload ?c ''clip'' ''sync'' None None None None True True None None
                   (\<lambda>reqs req. Inl RequestException) ?w)))"
    by blast
  ultimately show ?thesis using h r by simp
qed


section \<open>Temporary files\<close>

lemma cleanup_below: "below tmpdir p \<Longrightarrow> cleanup tmpdir fs p = None"
  and cleanup_other: "\<not> below tmpdir p \<Longrightarrow> cleanup tmpdir fs p = fs p"
  by (simp_all add: cleanup_def below_def)

lemma with_tmpdir_files:
  "files (snd (with_tmpdir tmpdir body w)) = cleanup tmpdir (files (snd (body w)))"
  and with_tmpdir_result: "fst (with_tmpdir tmpdir body w) = fst (body w)"
  by (simp_all add: with_tmpdir_def split: prod.splits)

lemma below_path_join: "below tmpdir (path_join tmpdir name)"
  by (simp add: below_def path_join_def)

lemma extract_linear16_audio_clean:
  "below tmpdir p \<Longrightarrow> files (snd (extract_linear16_audio proc tmpdir src sample_rate w)) p = None"
  by (simp add: extract_linear16_audio_def with_tmpdir_files cleanup_below)

lemma extract_linear16_audio_ok:
  assumes "proc [FFMPEG_BIN, ''-y'', ''-i'', path_join VOICE_DIR src, ''-ac'', ''1'', ''-ar'',
                 show_int sample_rate, ''-f'', ''wav'', path_join tmpdir (stem src @ ''.wav'')]
             (files w) = (Inr (), fs1)"
    and "fs1 (path_join tmpdir (stem src @ ''.wav'')) = Some data"
  shows "fst (extract_linear16_audio proc tmpdir src sample_rate w) = Inr data"
    and "\<not> below tmpdir p \<Longrightarrow>
           files (snd (extract_linear16_audio proc tmpdir src sample_rate w)) p = fs1 p"
  using assms
  by (simp_all add: extract_linear16_audio_def with_tmpdir_files with_tmpdir_result
        subprocess_run_def read_bytes_def cleanup_other Let_def)

lemma run_vosk_clean:
  assumes "below tmpdir p" and "p \<noteq> path_join RESULT_DIR_vosk (stem clip @ ''.txt'')"
  shows "files (snd (run_vosk clip rec st0 wave_open proc tmpdir w)) p = None"
proof -
  let ?body = "\<lambda>w. let wav_path = path_join tmpdir (stem clip @ ''.wav'')
             in case convert_to_wav proc (path_join VOICE_DIR clip) wav_path w of
                  (Inl e, w1) \<Rightarrow> (Inl e, w1)
                | (Inr u, w1) \<Rightarrow> (transcribe wav_path rec st0 wave_open w1, w1)"
  have c: "files (snd (with_tmpdir tmpdir ?body w)) p = None"
    using assms(1) by (simp only: with_tmpdir_files cleanup_below)
  obtain r w2 where e: "with_tmpdir tmpdir ?body w = (r, w2)" by (cases "with_tmpdir tmpdir ?body w")
  with c have "files w2 p = None" by simp
  then show ?thesis using e assms(2)
    by (cases r) (simp_all add: run_vosk_def write_text_def)
qed

lemma run_vosk_ok:
  assumes "proc ([FFMPEG_BIN, ''-y'', ''-i'', path_join VOICE_DIR clip] @ FFMPEG_ARGS
                   @ [path_join tmpdir (stem clip @ ''.wav'')]) (files w) = (Inr (), fs1)"
    and "transcribe (path_join tmpdir (stem clip @ ''.wav'')) rec st0 wave_open
           (w\<lparr>files := fs1\<rparr>) = Inr txt"
  shows "fst (run_vosk clip rec st0 wave_open proc tmpdir w) = Inr ()"
    and "files (snd (run_vosk clip rec st0 wave_open proc tmpdir w))
           (path_join RESULT_DIR_vosk (stem clip @ ''.txt'')) = Some txt"
  using assms
  by (simp_all add: run_vosk_def with_tmpdir_def convert_to_wav_def subprocess_run_def
        write_text_def Let_def)

text \<open>
  Claim C9.  In the Google script, when the transcoder has written the temporary wave
  file, \<^verbatim>\<open>extract_linear16_audio\<close> returns the bytes of that file as it was inside the
  scope, not a path; in the Vosk script the file is written and decoded inside the
  scope, and only the text leaves it.  After either call, on every path through it, no
  file below the temporary directory is left (for Vosk, the transcript written after
  the scope apart).
\<close>

theorem normalized_audio_is_read_inside_the_scope:
  "(\<forall>fs1 data.
      proc [FFMPEG_BIN, ''-y'', ''-i'', path_join VOICE_DIR clip, ''-ac'', ''1'', ''-ar'',
            show_int sample_rate, ''-f'', ''wav'', path_join tmpdir (stem clip @ ''.wav'')]
         (files w) = (Inr (), fs1)
      \<and> fs1 (path_join tmpdir (stem clip @ ''.wav'')) = Some data
      \<longrightarrow> fst (extract_linear16_audio proc tmpdir clip sample_rate w) = Inr data)
   \<and> (\<forall>p. below tmpdir p
      \<longrightarrow> files (snd (extract_linear16_audio proc tmpdir clip sample_rate w)) p = None)
   \<and> (\<forall>fs1 txt.
      proc ([FFMPEG_BIN, ''-y'', ''-i'', path_join VOICE_DIR clip] @ FFMPEG_ARGS
              @ [path_join tmpdir (stem clip @ ''.wav'')]) (files w) = (Inr (), fs1)
      \<and> transcribe (path_join tmpdir (stem clip @ ''.wav'')) rec st0 wave_open
           (w\<lparr>files := fs1\<rparr>) = Inr txt
      \<longrightarrow> fst (run_vosk clip rec st0 wave_open proc tmpdir w) = Inr ()
        \<and> files (snd (run_vosk clip rec st0 wave_open proc tmpdir w))
            (path_join RESULT_DIR_vosk (stem clip @ ''.txt'')) = Some txt)
   \<and> (\<forall>p. below tmpdir p \<and> p \<noteq> path_join RESULT_DIR_vosk (stem clip @ ''.txt'')
      \<longrightarrow> files (snd (run_vosk clip rec st0 wave_open proc tmpdir w)) p = None)"
  using extract_linear16_audio_ok(1)[of proc clip sample_rate tmpdir w]
    extract_linear16_audio_clean[of tmpdir _ proc clip sample_rate w]
    run_vosk_ok[of proc clip tmpdir w _ rec st0 wave_open]
    run_vosk_clean[of tmpdir _ clip rec st0 wave_open proc w]
  by blast


text \<open>
  The statement at one clip, with a transcoder that writes \<^verbatim>\<open>RIFF\<close> to its last argument
  and a decoder whose final result is \<^verbatim>\<open>hello\<close>.
\<close>

theorem normalized_audio_is_read_inside_the_scope_witness:
  "below ''/tmp/t'' ''/tmp/t/MYR_1.wav''
   \<and> fst (extract_linear16_audio (\<lambda>cmd fs. (Inr (), fs(last cmd \<mapsto> ''RIFF''))) ''/tmp/t''
            ''MYR_1.mp4'' 16000 \<lparr>heap = [], files = (\<lambda>p. None), sent = []\<rparr>) = Inr ''RIFF''
   \<and> files (snd (extract_linear16_audio (\<lambda>cmd fs. (Inr (), fs(last cmd \<mapsto> ''RIFF''))) ''/tmp/t''
            ''MYR_1.mp4'' 16000 \<lparr>heap = [], files = (\<lambda>p. None), sent = []\<rparr>))
        ''/tmp/t/MYR_1.wav'' = None
   \<and> fst (run_vosk ''MYR_1.mp4''
            \<lparr>AcceptWaveform = (\<lambda>st data. (False, st)),
             Result = (\<lambda>st. (JObj [(''text'', JStr [])], st)),
             FinalResult = (\<lambda>st. (JObj [(''text'', JStr ''hello'')], st))\<rparr> ()
            (\<lambda>b. Inr (2, b)) (\<lambda>cmd fs. (Inr (), fs(last cmd \<mapsto> ''RIFF''))) ''/tmp/t''
            \<lparr>heap = [], files = (\<lambda>p. None), sent = []\<rparr>) = Inr ()
   \<and> files (snd (run_vosk ''MYR_1.mp4''
            \<lparr>AcceptWaveform = (\<lambda>st data. (False, st)),
             Result = (\<lambda>st. (JObj [(''text'', JStr [])], st)),
             FinalResult = (\<lambda>st. (JObj [(''text'', JStr ''hello'')], st))\<rparr> ()
            (\<lambda>b. Inr (2, b)) (\<lambda>cmd fs. (Inr (), fs(last cmd \<mapsto> ''RIFF''))) ''/tmp/t''
            \<lparr>heap = [], files = (\<lambda>p. None), sent = []\<rparr>))
        (path_join RESULT_DIR_vosk ''MYR_1.txt'') = Some ''hello''
   \<and> files (snd (run_vosk ''MYR_1.mp4''
            \<lparr>AcceptWaveform = (\<lambda>st data. (False, st)),
             Result = (\<lambda>st. (JObj [(''text'', JStr [])], st)),
             FinalResult = (\<lambda>st. (JObj [(''text'', JStr ''hello'')], st))\<rparr> ()
            (\<lambda>b. Inr (2, b)) (\<lambda>cmd fs. (Inr (), fs(last cmd \<mapsto> ''RIFF''))) ''/tmp/t''
            \<lparr>heap = [], files = (\<lambda>p. None), sent = []\<rparr>))
        ''/tmp/t/MYR_1.wav'' = None"
proof -
  let ?proc = "\<lambda>cmd fs. (Inr (), fs(last cmd \<mapsto> ''RIFF''))
                 :: (error + unit) \<times> (string \<Rightarrow> string option)"
  let ?w = "\<lparr>heap = [], files = (\<lambda>p. None), sent = []\<rparr>"
  let ?rec = "\<lparr>AcceptWaveform = (\<lambda>st data. (False, st)),
             Result = (\<lambda>st. (JObj [(''text'', JStr [])], st)),
             FinalResult = (\<lambda>st. (JObj [(''text'', JStr ''hello'')], st))\<rparr>
               :: unit KaldiRecognizer"
  let ?fs1 = "(files ?w)(''/tmp/t/MYR_1.wav'' \<mapsto> ''RIFF'')"
  note t = normalized_audio_is_read_inside_the_scope[of ?proc "''MYR_1.mp4''" 16000 "''/tmp/t''" ?w
      ?rec "()" "\<lambda>b. Inr (2, b)"]
  have st: "stem ''MYR_1.mp4'' = ''MYR_1''" by (simp add: stem_def)
  have b: "below ''/tmp/t'' ''/tmp/t/MYR_1.wav''" by (simp add: below_def)
  have o: "''/tmp/t/MYR_1.wav'' \<noteq> path_join RESULT_DIR_vosk (stem ''MYR_1.mp4'' @ ''.txt'')"
    by (simp add: path_join_def RESULT_DIR_vosk_def)
  have g: "?proc [FFMPEG_BIN, ''-y'', ''-i'', path_join VOICE_DIR ''MYR_1.mp4'', ''-ac'', ''1'',
             ''-ar'', show_int 16000, ''-f'', ''wav'', path_join ''/tmp/t'' (stem ''MYR_1.mp4'' @ ''.wav'')]
             (files ?w) = (Inr (), ?fs1)
      \<and> ?fs1 (path_join ''/tmp/t'' (stem ''MYR_1.mp4'' @ ''.wav'')) = Some ''RIFF''"
    by (simp add: st path_join_def)
  have c: "chunks 8000 ''RIFF'' = [''RIFF'']" by (simp add: chunks.simps)
  have v: "?proc ([FFMPEG_BIN, ''-y'', ''-i'', path_join VOICE_DIR ''MYR_1.mp4''] @ FFMPEG_ARGS
              @ [path_join ''/tmp/t'' (stem ''MYR_1.mp4'' @ ''.wav'')]) (files ?w) = (Inr (), ?fs1)
      \<and> transcribe (path_join ''/tmp/t'' (stem ''MYR_1.mp4'' @ ''.wav'')) ?rec () (\<lambda>b. Inr (2, b))
           (?w\<lparr>files := ?fs1\<rparr>) = Inr ''hello''"
    by (simp add: st path_join_def transcribe_def read_bytes_def c text_of_def
          dict_get_default_def finish_def join_json_def strip_def strip_by_def is_space_def)
  from t g have "fst (extract_linear16_audio ?proc ''/tmp/t'' ''MYR_1.mp4'' 16000 ?w) = Inr ''RIFF''"
    by blast
  moreover from t b have "files (snd (extract_linear16_audio ?proc ''/tmp/t'' ''MYR_1.mp4'' 16000 ?w))
        ''/tmp/t/MYR_1.wav'' = None"
    by blast
  moreover from t v have "fst (run_vosk ''MYR_1.mp4'' ?rec () (\<lambda>b. Inr (2, b)) ?proc ''/tmp/t'' ?w) = Inr ()
      \<and> files (snd (run_vosk ''MYR_1.mp4'' ?rec () (\<lambda>b. Inr (2, b)) ?proc ''/tmp/t'' ?w))
            (path_join RESULT_DIR_vosk (stem ''MYR_1.mp4'' @ ''.txt'')) = Some ''hello''"
    by blast
  moreover from t b o have "files (snd (run_vosk ''MYR_1.mp4'' ?rec () (\<lambda>b. Inr (2, b)) ?proc
        ''/tmp/t'' ?w)) ''/tmp/t/MYR_1.wav'' = None"
    by blast
  ultimately show ?thesis using b by (simp add: st)
qed

end
